theory Spec2Isabelle
  imports Complex_Main "HOL-Library.Product_Lexorder"
begin

section \<open>CHECLabPy core/io.py: buffered DL1 writer, monitor writer, HDF store reader\<close>

text \<open>
  The module is glue code over pandas. The embedding follows the code of
  \<^verbatim>\<open>src/CHECLabPy/core/io.py\<close> statement by statement; the pandas and Python
  library calls it makes are modelled by the small functions of the next subsections, and
  the library functions whose results depend on text parsing, floating point or the memory
  layout (\<^verbatim>\<open>pd.to_datetime\<close>, \<^verbatim>\<open>int\<close>, \<^verbatim>\<open>float\<close>,
  \<^verbatim>\<open>DataFrame.memory_usage\<close>, \<^verbatim>\<open>pd.to_numeric(downcast='float')\<close>) and the helper
  \<^verbatim>\<open>CHECLabPy.utils.files.create_directory\<close>, which is not part of the sources at hand,
  are parameters of the model (record \<open>pylib\<close>, type \<open>create_directory_fn\<close>).
\<close>

subsection \<open>Exceptions\<close>

datatype pyerror =
    IOError string
  | FileNotFoundError
  | IsADirectoryError
  | IndexError
  | KeyError string
  | ValueError
  | TypeError
  | MemoryError
  | AttributeError
  | RuntimeError

text \<open>In Python 3 \<^verbatim>\<open>IOError\<close> is \<^verbatim>\<open>OSError\<close>; \<^verbatim>\<open>FileNotFoundError\<close> and
  \<^verbatim>\<open>IsADirectoryError\<close> are subclasses of it.\<close>

fun is_IOError :: "pyerror \<Rightarrow> bool" where
  "is_IOError (IOError m) = True"
| "is_IOError FileNotFoundError = True"
| "is_IOError IsADirectoryError = True"
| "is_IOError e = False"

subsection \<open>Data frames\<close>

text \<open>
  A cell of a frame: an integer, a float (a real number here; \<open>NA\<close> is NaN and NaT),
  or a timestamp in nanoseconds since the epoch (pandas \<^verbatim>\<open>Timestamp\<close>; its 64-bit
  range is not modelled). A frame has its column names in order and its rows in order,
  each row with its index label and its cells by column name; a cell outside the columns
  of the frame is never read.
\<close>

datatype cell = NA | CInt int | CFloat real | CTime int

type_synonym row = "string \<Rightarrow> cell"

record frame =
  columns :: "string list"
  rows :: "(int \<times> row) list"

definition has_column :: "frame \<Rightarrow> string \<Rightarrow> bool" where
  "has_column df c = (c \<in> set (columns df))"

text \<open>\<^verbatim>\<open>df[c] = v\<close> and \<^verbatim>\<open>df.loc[:, c] = v\<close> with a scalar \<open>v\<close>: every row gets the
  value; a new column is added at the end.\<close>

definition set_column :: "frame \<Rightarrow> string \<Rightarrow> cell \<Rightarrow> frame" where
  "set_column df c v =
     \<lparr>columns = (if c \<in> set (columns df) then columns df else columns df @ [c]),
      rows = map (\<lambda>(l, r). (l, r(c := v))) (rows df)\<rparr>"

text \<open>\<^verbatim>\<open>df[c] = series\<close>, the series computed row by row from the frame itself.\<close>

definition set_column_by :: "frame \<Rightarrow> string \<Rightarrow> (row \<Rightarrow> cell) \<Rightarrow> frame" where
  "set_column_by df c f =
     \<lparr>columns = (if c \<in> set (columns df) then columns df else columns df @ [c]),
      rows = map (\<lambda>(l, r). (l, r(c := f r))) (rows df)\<rparr>"

text \<open>\<^verbatim>\<open>df.loc[l, c]\<close>: the cell of the row labelled \<open>l\<close>; KeyError when the
  column or the label is missing. The labels of a frame are taken to be distinct, as
  they are in every frame that this module builds (with a label that occurs twice
  pandas returns a series, not a cell; the model takes the first row).\<close>

definition loc_get :: "frame \<Rightarrow> int \<Rightarrow> string \<Rightarrow> pyerror + cell" where
  "loc_get df l c =
     (if c \<notin> set (columns df) then Inl (KeyError c)
      else case map_of (rows df) l of
             None \<Rightarrow> Inl (KeyError ''label'')
           | Some r \<Rightarrow> Inr (r c))"

text \<open>\<^verbatim>\<open>df.loc[l, c] = v\<close>: sets the cell of the rows labelled \<open>l\<close>; with a label
  that is not in the index pandas enlarges the frame by a new row, all other cells
  missing.\<close>

definition loc_set :: "frame \<Rightarrow> int \<Rightarrow> string \<Rightarrow> cell \<Rightarrow> frame" where
  "loc_set df l c v =
     \<lparr>columns = (if c \<in> set (columns df) then columns df else columns df @ [c]),
      rows = (if l \<in> fst ` set (rows df)
              then map (\<lambda>(l', r). if l' = l then (l', r(c := v)) else (l', r)) (rows df)
              else rows df @ [(l, (\<lambda>_. NA)(c := v))])\<rparr>"

text \<open>Column names in order of first appearance.\<close>

fun uniq :: "'a list \<Rightarrow> 'a list" where
  "uniq [] = []"
| "uniq (x # xs) = x # uniq (filter (\<lambda>y. y \<noteq> x) xs)"

definition restrict_row :: "string list \<Rightarrow> row \<Rightarrow> row" where
  "restrict_row cs r = (\<lambda>c. if c \<in> set cs then r c else NA)"

definition reindex :: "row list \<Rightarrow> (int \<times> row) list" where
  "reindex rs = zip (map int [0..<length rs]) rs"

text \<open>\<^verbatim>\<open>pd.concat(dfs, ignore_index=True)\<close>: the rows of all frames in order under a
  fresh index 0, 1, ...; the columns are the union in order of first appearance, a cell
  of a column that a frame does not have is missing.\<close>

definition pd_concat :: "frame list \<Rightarrow> frame" where
  "pd_concat dfs =
     \<lparr>columns = uniq (concat (map columns dfs)),
      rows = reindex (concat (map (\<lambda>df. map (\<lambda>(l, r). restrict_row (columns df) r) (rows df)) dfs))\<rparr>"

text \<open>A column has a float dtype when its cells are floats or missing.\<close>

fun is_float_cell :: "cell \<Rightarrow> bool" where
  "is_float_cell NA = True"
| "is_float_cell (CFloat x) = True"
| "is_float_cell c = False"

definition is_float_column :: "frame \<Rightarrow> string \<Rightarrow> bool" where
  "is_float_column df c = list_all (\<lambda>(l, r). is_float_cell (r c)) (rows df)"

text \<open>\<^verbatim>\<open>astype(np.uintN)\<close> on one value: integers wrap modulo \<open>2^N\<close>; a float
  that is not negative is truncated and wraps likewise, a negative float is refused
  (\<^verbatim>\<open>Cannot losslessly cast\<close>, a ValueError); a missing value cannot be converted
  (\<^verbatim>\<open>IntCastingNaNError\<close>, a ValueError), a timestamp is refused (TypeError).\<close>

fun astype_uint_cell :: "nat \<Rightarrow> cell \<Rightarrow> pyerror + cell" where
  "astype_uint_cell w (CInt n) = Inr (CInt (n mod 2 ^ w))"
| "astype_uint_cell w (CFloat x) =
     (if x < 0 then Inl ValueError else Inr (CInt (\<lfloor>x\<rfloor> mod 2 ^ w)))"
| "astype_uint_cell w NA = Inl ValueError"
| "astype_uint_cell w (CTime t) = Inl TypeError"

fun astype_rows :: "nat \<Rightarrow> string \<Rightarrow> (int \<times> row) list \<Rightarrow> pyerror + (int \<times> row) list" where
  "astype_rows w c [] = Inr []"
| "astype_rows w c ((l, r) # rs) =
     (case astype_uint_cell w (r c) of
        Inl e \<Rightarrow> Inl e
      | Inr v \<Rightarrow> (case astype_rows w c rs of
                   Inl e \<Rightarrow> Inl e
                 | Inr rs' \<Rightarrow> Inr ((l, r(c := v)) # rs')))"

text \<open>\<^verbatim>\<open>df[c] = df[c].astype(np.uintN)\<close>; \<^verbatim>\<open>df[c]\<close> raises KeyError when there is no
  such column.\<close>

definition astype_uint :: "nat \<Rightarrow> string \<Rightarrow> frame \<Rightarrow> pyerror + frame" where
  "astype_uint w c df =
     (if c \<notin> set (columns df) then Inl (KeyError c)
      else case astype_rows w c (rows df) of
             Inl e \<Rightarrow> Inl e
           | Inr rs \<Rightarrow> Inr (df\<lparr>rows := rs\<rparr>))"

fun the_int :: "cell \<Rightarrow> int" where
  "the_int (CInt n) = n"
| "the_int c = 0"

text \<open>\<^verbatim>\<open>df.sort_values(["iev", "pixel"])\<close>: a stable sort of the rows, each keeping its
  label, by the two columns (both unsigned integers where it is called).\<close>

definition sort_values :: "string \<Rightarrow> string \<Rightarrow> frame \<Rightarrow> frame" where
  "sort_values a b df =
     df\<lparr>rows := sort_key (\<lambda>(l, r). (the_int (r a), the_int (r b))) (rows df)\<rparr>"

subsection \<open>Library functions taken as parameters\<close>

record pylib =
  to_datetime :: "string \<Rightarrow> int option"
  py_int :: "string \<Rightarrow> int option"
  py_float :: "string \<Rightarrow> cell option"
  memory_usage :: "frame \<Rightarrow> nat"
  downcast_float :: "cell list \<Rightarrow> cell \<Rightarrow> cell"

text \<open>
  \<open>to_datetime\<close> is \<^verbatim>\<open>pd.to_datetime(s, format="%Y-%m-%d %H:%M:%S:%f")\<close> in
  nanoseconds, \<open>py_int\<close> and \<open>py_float\<close> are \<^verbatim>\<open>int(s)\<close> and \<^verbatim>\<open>float(s)\<close>; \<open>None\<close>
  is their ValueError. \<open>memory_usage\<close> is
  \<^verbatim>\<open>df.memory_usage(index=True, deep=True).sum()\<close>. \<open>downcast_float\<close> is
  \<^verbatim>\<open>pd.to_numeric(column, downcast='float')\<close>: what a value of a float column
  becomes, given the cells of the whole column (pandas narrows all of a column or none
  of it).
\<close>

text \<open>\<^verbatim>\<open>df.select_dtypes(include=['float']).apply(pd.to_numeric, downcast='float')\<close>,
  assigned back to the same columns.\<close>

definition downcast_column :: "pylib \<Rightarrow> string \<Rightarrow> frame \<Rightarrow> frame" where
  "downcast_column lib c df =
     (if is_float_column df c
      then df\<lparr>rows := map (\<lambda>(l, r). (l, r(c := downcast_float lib (map (\<lambda>(l, r). r c) (rows df)) (r c))))
                          (rows df)\<rparr>
      else df)"

definition downcast_floats :: "pylib \<Rightarrow> frame \<Rightarrow> frame" where
  "downcast_floats lib df = fold (downcast_column lib) (columns df) df"

subsection \<open>The HDF store\<close>

datatype meta = MInt int | MStr string | MTime int

record table =
  t_frame :: frame
  t_metadata :: "(string \<times> meta) list option"

type_synonym hdfstore = "string \<Rightarrow> table option"

text \<open>\<^verbatim>\<open>store.append(key, df, ...)\<close>: an empty frame is not written at all; the first
  frame creates the table; a later frame must have the columns of the table, in any
  order (they are matched by name; ValueError otherwise), and its rows go after the rows
  already there.\<close>

definition store_append :: "hdfstore \<Rightarrow> string \<Rightarrow> frame \<Rightarrow> pyerror + hdfstore" where
  "store_append st key df =
     (if rows df = [] then Inr st
      else case st key of
             None \<Rightarrow> Inr (st(key \<mapsto> \<lparr>t_frame = df, t_metadata = None\<rparr>))
           | Some t \<Rightarrow>
               if set (columns (t_frame t)) = set (columns df)
               then Inr (st(key \<mapsto> t\<lparr>t_frame := \<lparr>columns = columns (t_frame t),
                                                    rows = rows (t_frame t) @ rows df\<rparr>\<rparr>))
               else Inl ValueError)"

text \<open>\<^verbatim>\<open>store.get_storer(key).attrs.metadata = md\<close>; there is no storer for a table
  that was never written.\<close>

definition store_set_metadata ::
  "hdfstore \<Rightarrow> string \<Rightarrow> (string \<times> meta) list \<Rightarrow> pyerror + hdfstore" where
  "store_set_metadata st key md =
     (case st key of
        None \<Rightarrow> Inl (KeyError key)
      | Some t \<Rightarrow> Inr (st(key \<mapsto> t\<lparr>t_metadata := Some md\<rparr>)))"

text \<open>\<^verbatim>\<open>dict(**self.metadata, **kwargs)\<close>: a key given twice is a TypeError.\<close>

definition add_metadata_dict ::
  "(string \<times> meta) list \<Rightarrow> (string \<times> meta) list \<Rightarrow> pyerror + (string \<times> meta) list" where
  "add_metadata_dict md kwargs =
     (if set (map fst md) \<inter> set (map fst kwargs) = {} then Inr (md @ kwargs)
      else Inl TypeError)"


subsection \<open>Strings and the file system\<close>

text \<open>\<^verbatim>\<open>s.split(" ")\<close>: the fields between single spaces, empty fields included; the
  result is never empty.\<close>

fun split_on :: "char \<Rightarrow> string \<Rightarrow> string list" where
  "split_on c [] = [[]]"
| "split_on c (x # xs) =
     (if x = c then [] # split_on c xs
      else case split_on c xs of
             [] \<Rightarrow> [[x]]
           | w # ws \<Rightarrow> (x # w) # ws)"

fun starts_with :: "string \<Rightarrow> string \<Rightarrow> bool" where
  "starts_with [] s = True"
| "starts_with (p # ps) [] = False"
| "starts_with (p # ps) (x # xs) = (p = x \<and> starts_with ps xs)"

text \<open>\<^verbatim>\<open>p in s\<close> for strings.\<close>

fun contains :: "string \<Rightarrow> string \<Rightarrow> bool" where
  "contains p [] = (p = [])"
| "contains p (x # xs) = (starts_with p (x # xs) \<or> contains p xs)"

definition newline :: char where
  "newline = CHR 0x0A"

text \<open>\<^verbatim>\<open>line.replace('\n', '').split(" ")\<close>\<close>

definition line_data :: "string \<Rightarrow> string list" where
  "line_data line = split_on CHR '' '' (filter (\<lambda>ch. ch \<noteq> newline) line)"

text \<open>\<^verbatim>\<open>os.path.dirname\<close> (posix).\<close>

definition dirname :: "string \<Rightarrow> string" where
  "dirname p =
     (let head = rev (dropWhile (\<lambda>ch. ch \<noteq> CHR ''/'') (rev p))
      in if head \<noteq> [] \<and> head \<noteq> replicate (length head) CHR ''/''
         then rev (dropWhile (\<lambda>ch. ch = CHR ''/'') (rev head))
         else head)"

text \<open>A path holds a text file (its lines as iterating over the open file gives them,
  each with its newline), an HDF file, or a directory.\<close>

datatype fs_entry = TextFile "string list" | HDFFile hdfstore | Directory

type_synonym filesystem = "string \<Rightarrow> fs_entry option"

definition exists_path :: "filesystem \<Rightarrow> string \<Rightarrow> bool" where
  "exists_path fs p = (fs p \<noteq> None)"

text \<open>\<^verbatim>\<open>os.remove\<close>\<close>

definition remove_path :: "filesystem \<Rightarrow> string \<Rightarrow> pyerror + filesystem" where
  "remove_path fs p =
     (case fs p of
        None \<Rightarrow> Inl FileNotFoundError
      | Some Directory \<Rightarrow> Inl IsADirectoryError
      | Some e \<Rightarrow> Inr (fs(p := None)))"

text \<open>\<^verbatim>\<open>open(path)\<close> for reading text, all lines read; an HDF file is not text
  (\<^verbatim>\<open>UnicodeDecodeError\<close>, a ValueError). A path is a string that can name a
  file (it holds no NUL character).\<close>

definition open_text :: "filesystem \<Rightarrow> string \<Rightarrow> pyerror + string list" where
  "open_text fs p =
     (case fs p of
        None \<Rightarrow> Inl FileNotFoundError
      | Some Directory \<Rightarrow> Inl IsADirectoryError
      | Some (HDFFile st) \<Rightarrow> Inl ValueError
      | Some (TextFile ls) \<Rightarrow> Inr ls)"

text \<open>\<^verbatim>\<open>pd.HDFStore(path, ...)\<close> in the default mode \<^verbatim>\<open>'a'\<close>: opens the file, creating
  an empty one when there is none.\<close>

definition HDFStore_open :: "filesystem \<Rightarrow> string \<Rightarrow> pyerror + (hdfstore \<times> filesystem)" where
  "HDFStore_open fs p =
     (case fs p of
        None \<Rightarrow> Inr (Map.empty, fs(p \<mapsto> HDFFile Map.empty))
      | Some (HDFFile st) \<Rightarrow> Inr (st, fs)
      | Some Directory \<Rightarrow> Inl IsADirectoryError
      | Some (TextFile ls) \<Rightarrow> Inl RuntimeError)"


text \<open>The helper \<^verbatim>\<open>create_directory\<close> of \<^verbatim>\<open>CHECLabPy.utils.files\<close> is a parameter:
  any function on the file system that may fail.\<close>

type_synonym create_directory_fn = "string \<Rightarrow> filesystem \<Rightarrow> pyerror + filesystem"

subsection \<open>MonitorWriter\<close>

definition n_modules :: int where
  "n_modules = 32"

definition n_tmpix :: int where
  "n_tmpix = 64"

definition supported :: "string list" where
  "supported = [''TM_T_PRI'', ''TM_T_AUX'', ''TM_T_PSU'', ''TM_T_SIPM'']"

definition empty_df :: frame where
  "empty_df =
     \<lparr>columns = [''imon'', ''t_cpu'', ''module''] @ supported,
      rows = map (\<lambda>m. (m, (\<lambda>c. NA)(''imon'' := CInt 0, ''t_cpu'' := CTime 0, ''module'' := CInt m)))
                 (map int [0..<nat n_modules])\<rparr>"

text \<open>The generator \<^verbatim>\<open>_get_next_monitor_event\<close>: its local variables, and where it
  stands. The integers \<open>0\<close> that \<open>t_cpu\<close> and \<open>start_time\<close> start with are \<open>None\<close>
  (a pandas timestamp is never false, so \<^verbatim>\<open>not start_time\<close> holds exactly then).\<close>

record gen_locals =
  g_path :: string
  g_imon :: int
  g_t_cpu :: "int option"
  g_start_time :: "int option"
  g_df :: frame

datatype generator =
    NotStarted string
  | Suspended gen_locals "string list"
  | Finished

datatype outcome = Yield frame | Stop | Raise pyerror

record monitor_writer =
  mw_metadata :: "(string \<times> meta) list"
  mw_n_bytes :: nat
  mw_df_list :: "frame list"
  mw_df_list_n_bytes :: nat
  mw_eof :: bool
  mw_aeof :: bool
  mw_t_delta_max :: int
  mw_monitor_it :: generator
  mw_monitor_ev :: frame
  mw_next_monitor_ev :: frame
  mw_stdout :: "string list"

text \<open>The monitor writer shares the store of the DL1 writer (\<^verbatim>\<open>self.store =
  dl1_writer.store\<close>): its methods take and return the store with the writer.\<close>

type_synonym mstate = "hdfstore \<times> monitor_writer"

definition hour :: int where
  "hour = 3600 * 1000000000"

text \<open>The flush threshold \<^verbatim>\<open>0.5E9\<close> bytes.\<close>

definition flush_threshold :: nat where
  "flush_threshold = 500000000"

definition MonitorWriter_append_to_file :: "pylib \<Rightarrow> mstate \<Rightarrow> pyerror + mstate" where
  "MonitorWriter_append_to_file lib s =
     (case s of (st, mw) \<Rightarrow>
        if mw_df_list mw = [] then Inr s
        else
          let df = downcast_floats lib (pd_concat (mw_df_list mw)) in
          (case astype_uint 32 ''imon'' df of
             Inl e \<Rightarrow> Inl e
           | Inr df1 \<Rightarrow>
               (case astype_uint 8 ''module'' df1 of
                  Inl e \<Rightarrow> Inl e
                | Inr df2 \<Rightarrow>
                    (case store_append st ''monitor'' df2 of
                       Inl e \<Rightarrow> Inl e
                     | Inr st' \<Rightarrow>
                         Inr (st', mw\<lparr>mw_n_bytes := mw_n_bytes mw + memory_usage lib df2,
                                     mw_df_list := [],
                                     mw_df_list_n_bytes := 0\<rparr>)))))"

text \<open>\<^verbatim>\<open>append_monitor_event\<close>. An exception of the flush leaves the batch in the
  buffer; the state at the exception is returned with it, since the generator below
  catches a ValueError and goes on.\<close>

definition append_monitor_event ::
  "pylib \<Rightarrow> mstate \<Rightarrow> frame \<Rightarrow> (pyerror \<times> mstate) + mstate" where
  "append_monitor_event lib s df_ev =
     (case s of (st, mw) \<Rightarrow>
        let mw1 = mw\<lparr>mw_df_list := mw_df_list mw @ [df_ev],
                     mw_df_list_n_bytes := mw_df_list_n_bytes mw + memory_usage lib df_ev\<rparr>
        in if mw_df_list_n_bytes mw1 \<ge> flush_threshold
           then (case MonitorWriter_append_to_file lib (st, mw1) of
                   Inl e \<Rightarrow> Inl (e, (st, mw1))
                 | Inr s' \<Rightarrow> Inr s')
           else Inr (st, mw1))"

definition MonitorWriter_add_metadata ::
  "mstate \<Rightarrow> (string \<times> meta) list \<Rightarrow> pyerror + mstate" where
  "MonitorWriter_add_metadata s kwargs =
     (case s of (st, mw) \<Rightarrow>
        (case add_metadata_dict (mw_metadata mw) kwargs of
           Inl e \<Rightarrow> Inl e
         | Inr md \<Rightarrow> Inr (st, mw\<lparr>mw_metadata := md\<rparr>)))"

text \<open>\<^verbatim>\<open>print("ValueError from line: {}".format(line))\<close>\<close>

definition report :: "mstate \<Rightarrow> string \<Rightarrow> mstate" where
  "report s line =
     (case s of (st, mw) \<Rightarrow>
        (st, mw\<lparr>mw_stdout := mw_stdout mw @ [''ValueError from line: '' @ line]\<rparr>))"

definition time_meta :: "int option \<Rightarrow> meta" where
  "time_meta t = (case t of None \<Rightarrow> MInt 0 | Some x \<Rightarrow> MTime x)"

text \<open>
  The body of the \<^verbatim>\<open>for line in file\<close> loop of the generator, for one line: the
  loop goes on to the next line, or the generator yields a batch, or an exception leaves
  it. The \<^verbatim>\<open>try\<close> block catches ValueError only: of the date, of \<^verbatim>\<open>int\<close> and
  \<^verbatim>\<open>float\<close>, and of a flush inside \<^verbatim>\<open>append_monitor_event\<close>. \<^verbatim>\<open>data[1]\<close>
  raises IndexError on a line without a space, which nothing catches.
\<close>

datatype line_result =
    Continue mstate gen_locals
  | Yielded frame gen_locals mstate
  | Raised pyerror mstate

definition gen_line :: "pylib \<Rightarrow> mstate \<Rightarrow> gen_locals \<Rightarrow> string \<Rightarrow> line_result" where
  "gen_line lib s g line =
     (if line = [] then Continue s g
      else
        (case line_data line of
          [] \<Rightarrow> Raised IndexError s
        | [d0] \<Rightarrow> Raised IndexError s
        | d0 # d1 # ds \<Rightarrow>
          (case to_datetime lib (d0 @ '' '' @ d1) of
             None \<Rightarrow> Continue (report s line) g
           | Some t \<Rightarrow>
               let g1 = g\<lparr>g_t_cpu := Some (t - hour)\<rparr> in
               if contains ''Monitoring Event Done'' line then
                 let g2 = g1\<lparr>g_start_time :=
                               (case g_start_time g1 of None \<Rightarrow> Some (t - hour) | Some x \<Rightarrow> Some x)\<rparr>;
                     df = set_column (set_column (g_df g2) ''imon'' (CInt (g_imon g2)))
                            ''t_cpu'' (CTime (t - hour));
                     g3 = g2\<lparr>g_df := df\<rparr>
                 in (case append_monitor_event lib s df of
                       Inl (e, s1) \<Rightarrow>
                         if e = ValueError then Continue (report s1 line) g3
                         else Raised e s1
                     | Inr s1 \<Rightarrow> Yielded df g3 s1)
               else if length (line_data line) < 6 then Continue s g1
               else
                 let key = line_data line ! 2 @ ''_'' @ line_data line ! 3 in
                 if key \<in> set supported then
                   (case py_int lib (line_data line ! 4) of
                      None \<Rightarrow> Continue (report s line) g1
                    | Some device_id \<Rightarrow>
                        (case py_float lib (line_data line ! 5) of
                           None \<Rightarrow> Continue (report s line) g1
                         | Some v \<Rightarrow>
                             Continue s (g1\<lparr>g_df := loc_set (g_df g1) device_id key v\<rparr>)))
                 else Continue s g1)))"

text \<open>The generator from the \<^verbatim>\<open>for\<close> loop on: it runs until the next
  \<^verbatim>\<open>yield\<close>, the end of the file (where it records its metadata) or an exception.\<close>

fun gen_loop ::
  "pylib \<Rightarrow> mstate \<Rightarrow> gen_locals \<Rightarrow> string list \<Rightarrow> outcome \<times> generator \<times> mstate" where
  "gen_loop lib s g [] =
     (case MonitorWriter_add_metadata s
             [(''input_path'', MStr (g_path g)),
              (''n_events'', MInt (g_imon g)),
              (''start_time'', time_meta (g_start_time g)),
              (''end_time'', time_meta (g_t_cpu g)),
              (''n_modules'', MInt n_modules),
              (''n_tmpix'', MInt n_tmpix)] of
        Inl e \<Rightarrow> (Raise e, Finished, s)
      | Inr s' \<Rightarrow> (Stop, Finished, s'))"
| "gen_loop lib s g (line # ls) =
     (case gen_line lib s g line of
        Continue s' g' \<Rightarrow> gen_loop lib s' g' ls
      | Yielded df g' s' \<Rightarrow> (Yield df, Suspended g' ls, s')
      | Raised e s' \<Rightarrow> (Raise e, Finished, s'))"

text \<open>\<^verbatim>\<open>next(self.monitor_it)\<close>. The first call runs the generator from its start:
  it opens the file. A later call resumes after the \<^verbatim>\<open>yield\<close>:
  \<^verbatim>\<open>imon += 1; df = self.empty_df.copy(); continue\<close>.\<close>

definition gen_next :: "pylib \<Rightarrow> filesystem \<Rightarrow> mstate \<Rightarrow> outcome \<times> mstate" where
  "gen_next lib fs s =
     (case (case mw_monitor_it (snd s) of
              NotStarted p \<Rightarrow>
                (case open_text fs p of
                   Inl e \<Rightarrow> (Raise e, Finished, s)
                 | Inr ls \<Rightarrow>
                     gen_loop lib s
                       \<lparr>g_path = p, g_imon = 0, g_t_cpu = None, g_start_time = None,
                        g_df = empty_df\<rparr> ls)
            | Suspended g ls \<Rightarrow>
                gen_loop lib s (g\<lparr>g_imon := g_imon g + 1, g_df := empty_df\<rparr>) ls
            | Finished \<Rightarrow> (Stop, Finished, s)) of
        (out, gen, (st, mw)) \<Rightarrow> (out, (st, mw\<lparr>mw_monitor_it := gen\<rparr>)))"


text \<open>
  \<^verbatim>\<open>MonitorWriter.__init__\<close>. For a path that does not exist the code builds a
  \<^verbatim>\<open>FileNotFoundError\<close> and does not raise it (there is no \<^verbatim>\<open>raise\<close>), so the
  check changes nothing; it is the \<^verbatim>\<open>open\<close> inside the generator, at the first
  \<^verbatim>\<open>next\<close>, that fails. Before the first \<^verbatim>\<open>next\<close> returns the attributes
  \<^verbatim>\<open>monitor_ev\<close> and \<^verbatim>\<open>next_monitor_ev\<close> do not exist; the generator does not
  read them.
\<close>

definition MonitorWriter_init ::
  "pylib \<Rightarrow> filesystem \<Rightarrow> hdfstore \<Rightarrow> string \<Rightarrow> pyerror + mstate" where
  "MonitorWriter_init lib fs st monitor_path =
     (let unraised = (if \<not> exists_path fs monitor_path then Some FileNotFoundError else None);
          mw = \<lparr>mw_metadata = [], mw_n_bytes = 0, mw_df_list = [], mw_df_list_n_bytes = 0,
                mw_eof = False, mw_aeof = False, mw_t_delta_max = 0,
                mw_monitor_it = NotStarted monitor_path,
                mw_monitor_ev = empty_df, mw_next_monitor_ev = empty_df,
                mw_stdout = []\<rparr>
      in case gen_next lib fs (st, mw) of
           (Yield df, (st', mw')) \<Rightarrow>
             Inr (st', mw'\<lparr>mw_monitor_ev := df, mw_next_monitor_ev := df\<rparr>)
         | (Stop, s') \<Rightarrow> Inl (IOError ''No monitor events found'')
         | (Raise e, s') \<Rightarrow> Inl e)"

text \<open>The timestamp of a batch, \<^verbatim>\<open>df.loc[0, 't_cpu']\<close>: \<open>None\<close> is NaT, with which
  every comparison is false. Subtracting or comparing anything else but a timestamp with
  a timestamp is a TypeError.\<close>

definition loc_time :: "frame \<Rightarrow> pyerror + int option" where
  "loc_time df =
     (case loc_get df 0 ''t_cpu'' of
        Inl e \<Rightarrow> Inl e
      | Inr (CTime t) \<Rightarrow> Inr (Some t)
      | Inr NA \<Rightarrow> Inr None
      | Inr c \<Rightarrow> Inl TypeError)"

text \<open>The lookahead batch made up at the end of the monitor file (the
  \<^verbatim>\<open>except StopIteration\<close> branch): \<^verbatim>\<open>imon + 1\<close> and
  \<^verbatim>\<open>t_cpu + self.t_delta_max\<close> of the current batch in an empty batch.\<close>

definition synthesize :: "frame \<Rightarrow> int \<Rightarrow> pyerror + frame" where
  "synthesize monitor_ev t_delta_max =
     (case loc_get monitor_ev 0 ''imon'' of
        Inl e \<Rightarrow> Inl e
      | Inr (CInt imon) \<Rightarrow>
          (case loc_get monitor_ev 0 ''t_cpu'' of
             Inl e \<Rightarrow> Inl e
           | Inr (CTime t_cpu) \<Rightarrow>
               Inr (set_column (set_column empty_df ''imon'' (CInt (imon + 1)))
                      ''t_cpu'' (CTime (t_cpu + t_delta_max)))
           | Inr c \<Rightarrow> Inl TypeError)
      | Inr c \<Rightarrow> Inl TypeError)"

text \<open>One round of the \<^verbatim>\<open>while\<close> loop of \<^verbatim>\<open>match_to_data_events\<close>: the
  \<^verbatim>\<open>try\<close> with its \<^verbatim>\<open>except StopIteration\<close>.\<close>

definition advance :: "pylib \<Rightarrow> filesystem \<Rightarrow> mstate \<Rightarrow> pyerror + mstate" where
  "advance lib fs s =
     (case s of (st, mw) \<Rightarrow>
        (case gen_next lib fs (st, mw\<lparr>mw_monitor_ev := mw_next_monitor_ev mw\<rparr>) of
           (Yield df, (st', mw')) \<Rightarrow> Inr (st', mw'\<lparr>mw_next_monitor_ev := df\<rparr>)
         | (Stop, (st', mw')) \<Rightarrow>
             (case synthesize (mw_monitor_ev mw') (mw_t_delta_max mw') of
                Inl e \<Rightarrow> Inl e
              | Inr df \<Rightarrow> Inr (st', mw'\<lparr>mw_eof := True, mw_next_monitor_ev := df\<rparr>))
         | (Raise e, s') \<Rightarrow> Inl e))"

fun gen_size :: "filesystem \<Rightarrow> generator \<Rightarrow> nat" where
  "gen_size fs (NotStarted p) =
     (case open_text fs p of Inl e \<Rightarrow> 1 | Inr ls \<Rightarrow> length ls + 2)"
| "gen_size fs (Suspended g ls) = length ls + 1"
| "gen_size fs Finished = 0"

lemma gen_loop_Yield:
  "gen_loop lib s g ls = (Yield df, gen, s') \<Longrightarrow>
   \<exists>g' ls'. gen = Suspended g' ls' \<and> length ls' < length ls"
  by (induction ls arbitrary: s g) (fastforce split: sum.splits line_result.splits)+

lemma gen_next_Yield:
  "gen_next lib fs s = (Yield df, s') \<Longrightarrow>
   gen_size fs (mw_monitor_it (snd s')) < gen_size fs (mw_monitor_it (snd s))"
  by (auto simp: gen_next_def split: generator.splits sum.splits prod.splits
           dest!: gen_loop_Yield)

lemma gen_loop_Stop:
  "gen_loop lib s g ls = (Stop, gen, s') \<Longrightarrow> gen = Finished"
  by (induction ls arbitrary: s g) (auto split: sum.splits line_result.splits)

lemma gen_next_Stop:
  "gen_next lib fs s = (Stop, s') \<Longrightarrow> mw_monitor_it (snd s') = Finished"
  by (auto simp: gen_next_def split: generator.splits sum.splits prod.splits
           dest!: gen_loop_Stop)


lemma advance_measure:
  assumes "advance lib fs s = Inr s'" and "\<not> mw_eof (snd s)"
  shows "(if mw_eof (snd s') then 0 else Suc (gen_size fs (mw_monitor_it (snd s'))))
         < Suc (gen_size fs (mw_monitor_it (snd s)))"
proof -
  obtain st mw where s: "s = (st, mw)" by (cases s)
  let ?s1 = "(st, mw\<lparr>mw_monitor_ev := mw_next_monitor_ev mw\<rparr>)"
  obtain out s2 where g: "gen_next lib fs ?s1 = (out, s2)" by (cases "gen_next lib fs ?s1")
  show ?thesis
  proof (cases out)
    case (Yield df)
    with g have "gen_size fs (mw_monitor_it (snd s2)) < gen_size fs (mw_monitor_it (snd ?s1))"
      using gen_next_Yield by blast
    with assms s g Yield show ?thesis
      by (auto simp: advance_def split: prod.splits)
  next
    case Stop
    with assms s g show ?thesis
      by (auto simp: advance_def split: prod.splits sum.splits)
  next
    case (Raise e)
    with assms s g show ?thesis
      by (simp add: advance_def split: prod.splits)
  qed
qed

text \<open>The \<^verbatim>\<open>while (t_cpu_data > t_cpu_next_monitor) and not self.eof\<close> loop. It ends:
  every round takes a batch off the generator, whose file is finite, or sets \<open>eof\<close>.\<close>

function match_loop :: "pylib \<Rightarrow> filesystem \<Rightarrow> int \<Rightarrow> mstate \<Rightarrow> pyerror + mstate" where
  "match_loop lib fs t_cpu_data s =
     (case loc_time (mw_next_monitor_ev (snd s)) of
        Inl e \<Rightarrow> Inl e
      | Inr t_cpu_next_monitor \<Rightarrow>
          if (case t_cpu_next_monitor of None \<Rightarrow> False | Some tn \<Rightarrow> t_cpu_data > tn)
             \<and> \<not> mw_eof (snd s)
          then (case advance lib fs s of
                  Inl e \<Rightarrow> Inl e
                | Inr s' \<Rightarrow> match_loop lib fs t_cpu_data s')
          else Inr s)"
  by pat_completeness auto
termination
  by (relation "measure (\<lambda>(lib, fs, t, s).
         if mw_eof (snd s) then 0 else Suc (gen_size fs (mw_monitor_it (snd s))))")
     (auto dest: advance_measure)

declare match_loop.simps [simp del]


text \<open>
  \<^verbatim>\<open>match_to_data_events\<close>. The data batch is changed in place (it gets the column
  \<^verbatim>\<open>monitor_index\<close>); the changed batch is returned with the state. With a NaT
  timestamp of the data batch every comparison is false: nothing moves. The \<open>imon\<close>
  of a monitor batch is an integer wherever the code sets it; for any other cell the
  model gives a TypeError. \<open>index_cell\<close> is \<^verbatim>\<open>imon * self.n_modules + pixel // self.n_tmpix\<close>
  for one pixel.
\<close>

definition index_cell :: "int \<Rightarrow> cell \<Rightarrow> cell" where
  "index_cell imon c =
     (case c of
        CInt pixel \<Rightarrow> CInt (imon * n_modules + pixel div n_tmpix)
      | CFloat pixel \<Rightarrow> CFloat (of_int (imon * n_modules) + of_int \<lfloor>pixel / of_int n_tmpix\<rfloor>)
      | other \<Rightarrow> NA)"

definition monitor_index :: "frame \<Rightarrow> frame \<Rightarrow> pyerror + frame" where
  "monitor_index monitor_ev data_ev =
     (case loc_get monitor_ev 0 ''imon'' of
        Inl e \<Rightarrow> Inl e
      | Inr (CInt imon) \<Rightarrow>
          if ''pixel'' \<notin> set (columns data_ev) then Inl (KeyError ''pixel'')
          else if list_ex (\<lambda>(l, r). case r ''pixel'' of CTime t \<Rightarrow> True | c \<Rightarrow> False) (rows data_ev)
          then Inl TypeError
          else Inr (set_column_by data_ev ''monitor_index'' (\<lambda>r. index_cell imon (r ''pixel'')))
      | Inr c \<Rightarrow> Inl TypeError)"

definition emit_tail :: "pylib \<Rightarrow> int option \<Rightarrow> mstate \<Rightarrow> pyerror + mstate" where
  "emit_tail lib t_cpu_data s =
     (case s of (st, mw) \<Rightarrow>
        (case loc_time (mw_next_monitor_ev mw) of
           Inl e \<Rightarrow> Inl e
         | Inr t_cpu_next_monitor \<Rightarrow>
             if mw_eof mw
                \<and> (case (t_cpu_data, t_cpu_next_monitor) of
                      (Some td, Some tn) \<Rightarrow> td > tn
                    | other \<Rightarrow> False)
                \<and> \<not> mw_aeof mw
             then (case append_monitor_event lib
                          (st, mw\<lparr>mw_monitor_ev := mw_next_monitor_ev mw\<rparr>)
                          (mw_next_monitor_ev mw) of
                     Inl (e, s1) \<Rightarrow> Inl e
                   | Inr (st', mw') \<Rightarrow> Inr (st', mw'\<lparr>mw_aeof := True\<rparr>))
             else Inr s))"

definition update_t_delta_max :: "int option \<Rightarrow> int option \<Rightarrow> monitor_writer \<Rightarrow> monitor_writer" where
  "update_t_delta_max t_cpu_data t_cpu_next_monitor mw =
     (case (t_cpu_data, t_cpu_next_monitor) of
        (Some td, Some tn) \<Rightarrow>
          if mw_t_delta_max mw < tn - td then mw\<lparr>mw_t_delta_max := tn - td\<rparr> else mw
      | other \<Rightarrow> mw)"

definition match_to_data_events ::
  "pylib \<Rightarrow> filesystem \<Rightarrow> mstate \<Rightarrow> frame \<Rightarrow> pyerror + (frame \<times> mstate)" where
  "match_to_data_events lib fs s data_ev =
     (case s of (st, mw) \<Rightarrow>
        (case loc_time data_ev of
           Inl e \<Rightarrow> Inl e
         | Inr t_cpu_data \<Rightarrow>
             (case loc_time (mw_next_monitor_ev mw) of
                Inl e \<Rightarrow> Inl e
              | Inr t_cpu_next_monitor \<Rightarrow>
                  (case (case t_cpu_data of
                           None \<Rightarrow> Inr (st, update_t_delta_max t_cpu_data t_cpu_next_monitor mw)
                         | Some td \<Rightarrow>
                             match_loop lib fs td
                               (st, update_t_delta_max t_cpu_data t_cpu_next_monitor mw)) of
                     Inl e \<Rightarrow> Inl e
                   | Inr s1 \<Rightarrow>
                       (case emit_tail lib t_cpu_data s1 of
                          Inl e \<Rightarrow> Inl e
                        | Inr s2 \<Rightarrow>
                            (case monitor_index (mw_monitor_ev (snd s2)) data_ev of
                               Inl e \<Rightarrow> Inl e
                             | Inr data_ev' \<Rightarrow> Inr (data_ev', s2)))))))"

text \<open>\<^verbatim>\<open>for _ in self.monitor_it: pass\<close>\<close>

function drain :: "pylib \<Rightarrow> filesystem \<Rightarrow> mstate \<Rightarrow> pyerror + mstate" where
  "drain lib fs s =
     (case gen_next lib fs s of
        (Yield df, s') \<Rightarrow> drain lib fs s'
      | (Stop, s') \<Rightarrow> Inr s'
      | (Raise e, s') \<Rightarrow> Inl e)"
  by pat_completeness auto
termination
  by (relation "measure (\<lambda>(lib, fs, s). gen_size fs (mw_monitor_it (snd s)))")
     (auto dest: gen_next_Yield [OF sym])

declare drain.simps [simp del]

definition MonitorWriter_save_metadata :: "mstate \<Rightarrow> pyerror + mstate" where
  "MonitorWriter_save_metadata s =
     (case s of (st, mw) \<Rightarrow>
        (case store_set_metadata st ''monitor'' (mw_metadata mw) of
           Inl e \<Rightarrow> Inl e
         | Inr st' \<Rightarrow> Inr (st', mw)))"

definition MonitorWriter_finish :: "pylib \<Rightarrow> filesystem \<Rightarrow> mstate \<Rightarrow> pyerror + mstate" where
  "MonitorWriter_finish lib fs s =
     (case drain lib fs s of
        Inl e \<Rightarrow> Inl e
      | Inr s1 \<Rightarrow>
          (case MonitorWriter_append_to_file lib s1 of
             Inl e \<Rightarrow> Inl e
           | Inr s2 \<Rightarrow>
               (case MonitorWriter_add_metadata s2 [(''n_bytes'', MInt (int (mw_n_bytes (snd s2))))] of
                  Inl e \<Rightarrow> Inl e
                | Inr s3 \<Rightarrow> MonitorWriter_save_metadata s3)))"

subsection \<open>DL1Writer\<close>

record dl1_writer =
  dw_path :: string
  dw_totalrows :: nat
  dw_metadata :: "(string \<times> meta) list"
  dw_n_bytes :: nat
  dw_df_list :: "frame list"
  dw_df_list_n_bytes :: nat
  dw_monitor :: "monitor_writer option"
  dw_store :: hdfstore

text \<open>\<^verbatim>\<open>DL1Writer.__init__\<close>. \<^verbatim>\<open>if monitor_path:\<close> is false for \<^verbatim>\<open>None\<close> and for
  the empty string.\<close>

definition DL1Writer_init ::
  "pylib \<Rightarrow> create_directory_fn \<Rightarrow> filesystem \<Rightarrow> string \<Rightarrow> nat \<Rightarrow> string option
   \<Rightarrow> pyerror + (dl1_writer \<times> filesystem)" where
  "DL1Writer_init lib create_directory fs dl1_path totalrows monitor_path =
     (case create_directory (dirname dl1_path) fs of
        Inl e \<Rightarrow> Inl e
      | Inr fs1 \<Rightarrow>
          (case (if exists_path fs1 dl1_path then remove_path fs1 dl1_path else Inr fs1) of
             Inl e \<Rightarrow> Inl e
           | Inr fs2 \<Rightarrow>
               (case HDFStore_open fs2 dl1_path of
                  Inl e \<Rightarrow> Inl e
                | Inr (st, fs3) \<Rightarrow>
                    let w = \<lparr>dw_path = dl1_path, dw_totalrows = totalrows, dw_metadata = [],
                             dw_n_bytes = 0, dw_df_list = [], dw_df_list_n_bytes = 0,
                             dw_monitor = None, dw_store = st\<rparr>
                    in (case monitor_path of
                          None \<Rightarrow> Inr (w, fs3)
                        | Some p \<Rightarrow>
                            if p = [] then Inr (w, fs3)
                            else (case MonitorWriter_init lib fs3 st p of
                                    Inl e \<Rightarrow> Inl e
                                  | Inr (st', mw) \<Rightarrow>
                                      Inr (w\<lparr>dw_monitor := Some mw, dw_store := st'\<rparr>, fs3))))))"

text \<open>The list \<^verbatim>\<open>default_c\<close> as Python reads it: there is no comma between
  \<^verbatim>\<open>'tr'\<close> and \<^verbatim>\<open>'baseline_start_mean'\<close>, and adjacent string literals are joined
  into one.\<close>

definition default_c :: "string list" where
  "default_c =
     [''t_event'',
      ''t_pulse'',
      ''amp_pulse'',
      ''charge'',
      ''fwhm'',
      ''tr'' @ ''baseline_start_mean'',
      ''baseline_start_rms'',
      ''baseline_end_mean'',
      ''baseline_end_rms'',
      ''baseline_subtracted'',
      ''waveform_mean'',
      ''waveform_rms'',
      ''saturation_coeff'']"

text \<open>\<^verbatim>\<open>for column in default_c: if column not in df: df[column] = 0.\<close>\<close>

definition backfill :: "frame \<Rightarrow> frame" where
  "backfill df =
     fold (\<lambda>column df. if \<not> has_column df column then set_column df column (CFloat 0) else df)
          default_c df"

text \<open>The frame that \<^verbatim>\<open>_append_to_file\<close> hands to \<^verbatim>\<open>store.append\<close>.\<close>

definition prepare :: "pylib \<Rightarrow> frame list \<Rightarrow> pyerror + frame" where
  "prepare lib df_list =
     (let df = downcast_floats lib (backfill (pd_concat df_list)) in
      (case astype_uint 32 ''iev'' df of
         Inl e \<Rightarrow> Inl e
       | Inr df1 \<Rightarrow>
           (case astype_uint 32 ''pixel'' df1 of
              Inl e \<Rightarrow> Inl e
            | Inr df2 \<Rightarrow>
                (case astype_uint 16 ''first_cell_id'' df2 of
                   Inl e \<Rightarrow> Inl e
                 | Inr df3 \<Rightarrow>
                     (case astype_uint 64 ''t_tack'' df3 of
                        Inl e \<Rightarrow> Inl e
                      | Inr df4 \<Rightarrow>
                          (case astype_uint 16 ''t_event'' df4 of
                             Inl e \<Rightarrow> Inl e
                           | Inr df5 \<Rightarrow> Inr (sort_values ''iev'' ''pixel'' df5)))))))"

definition DL1Writer_append_to_file :: "pylib \<Rightarrow> dl1_writer \<Rightarrow> pyerror + dl1_writer" where
  "DL1Writer_append_to_file lib w =
     (if dw_df_list w = [] then Inr w
      else (case prepare lib (dw_df_list w) of
              Inl e \<Rightarrow> Inl e
            | Inr df \<Rightarrow>
                (case store_append (dw_store w) ''data'' df of
                   Inl e \<Rightarrow> Inl e
                 | Inr st' \<Rightarrow>
                     Inr (w\<lparr>dw_store := st',
                            dw_n_bytes := dw_n_bytes w + memory_usage lib df,
                            dw_df_list := [],
                            dw_df_list_n_bytes := 0\<rparr>))))"

text \<open>\<^verbatim>\<open>append_event\<close>. The batch goes into the buffer and is measured first; the
  monitor writer then adds \<^verbatim>\<open>monitor_index\<close> to the very object that the buffer
  holds.\<close>

definition DL1Writer_append_event ::
  "pylib \<Rightarrow> filesystem \<Rightarrow> dl1_writer \<Rightarrow> frame \<Rightarrow> pyerror + dl1_writer" where
  "DL1Writer_append_event lib fs w df_ev =
     (let n = dw_df_list_n_bytes w + memory_usage lib df_ev in
      (case (case dw_monitor w of
               None \<Rightarrow> Inr (w\<lparr>dw_df_list := dw_df_list w @ [df_ev], dw_df_list_n_bytes := n\<rparr>)
             | Some mw \<Rightarrow>
                 (case match_to_data_events lib fs (dw_store w, mw) df_ev of
                    Inl e \<Rightarrow> Inl e
                  | Inr (df_ev', (st', mw')) \<Rightarrow>
                      Inr (w\<lparr>dw_df_list := dw_df_list w @ [df_ev'], dw_df_list_n_bytes := n,
                             dw_monitor := Some mw', dw_store := st'\<rparr>))) of
         Inl e \<Rightarrow> Inl e
       | Inr w1 \<Rightarrow>
           if dw_df_list_n_bytes w1 \<ge> flush_threshold then DL1Writer_append_to_file lib w1
           else Inr w1))"

definition DL1Writer_add_metadata ::
  "dl1_writer \<Rightarrow> (string \<times> meta) list \<Rightarrow> pyerror + dl1_writer" where
  "DL1Writer_add_metadata w kwargs =
     (case add_metadata_dict (dw_metadata w) kwargs of
        Inl e \<Rightarrow> Inl e
      | Inr md \<Rightarrow> Inr (w\<lparr>dw_metadata := md\<rparr>))"

definition DL1Writer_save_metadata :: "dl1_writer \<Rightarrow> pyerror + dl1_writer" where
  "DL1Writer_save_metadata w =
     (case store_set_metadata (dw_store w) ''data'' (dw_metadata w) of
        Inl e \<Rightarrow> Inl e
      | Inr st' \<Rightarrow> Inr (w\<lparr>dw_store := st'\<rparr>))"

text \<open>\<^verbatim>\<open>finish\<close>; \<^verbatim>\<open>self.store.close()\<close> leaves the tables in the file.\<close>

definition DL1Writer_finish ::
  "pylib \<Rightarrow> filesystem \<Rightarrow> dl1_writer \<Rightarrow> pyerror + (dl1_writer \<times> filesystem)" where
  "DL1Writer_finish lib fs w =
     (case DL1Writer_append_to_file lib w of
        Inl e \<Rightarrow> Inl e
      | Inr w1 \<Rightarrow>
          (case (case dw_monitor w1 of
                   None \<Rightarrow> Inr w1
                 | Some mw \<Rightarrow>
                     (case MonitorWriter_finish lib fs (dw_store w1, mw) of
                        Inl e \<Rightarrow> Inl e
                      | Inr (st', mw') \<Rightarrow> Inr (w1\<lparr>dw_monitor := Some mw', dw_store := st'\<rparr>))) of
             Inl e \<Rightarrow> Inl e
           | Inr w2 \<Rightarrow>
               (case DL1Writer_add_metadata w2 [(''n_bytes'', MInt (int (dw_n_bytes w2)))] of
                  Inl e \<Rightarrow> Inl e
                | Inr w3 \<Rightarrow>
                    (case DL1Writer_save_metadata w3 of
                       Inl e \<Rightarrow> Inl e
                     | Inr w4 \<Rightarrow> Inr (w4, fs(dw_path w4 \<mapsto> HDFFile (dw_store w4)))))))"

text \<open>A run of the writer: the batches one by one, then \<^verbatim>\<open>finish\<close>.\<close>

fun append_events ::
  "pylib \<Rightarrow> filesystem \<Rightarrow> dl1_writer \<Rightarrow> frame list \<Rightarrow> pyerror + dl1_writer" where
  "append_events lib fs w [] = Inr w"
| "append_events lib fs w (df_ev # evs) =
     (case DL1Writer_append_event lib fs w df_ev of
        Inl e \<Rightarrow> Inl e
      | Inr w' \<Rightarrow> append_events lib fs w' evs)"

definition write_run ::
  "pylib \<Rightarrow> filesystem \<Rightarrow> dl1_writer \<Rightarrow> frame list \<Rightarrow> pyerror + (dl1_writer \<times> filesystem)" where
  "write_run lib fs w evs =
     (case append_events lib fs w evs of
        Inl e \<Rightarrow> Inl e
      | Inr w' \<Rightarrow> DL1Writer_finish lib fs w')"

subsection \<open>HDFStoreReader\<close>








subsection \<open>Observations used in the properties\<close>

text \<open>The date-time written in a log line, as the generator reads it:
  \<^verbatim>\<open>pd.to_datetime("{} {}".format(data[0], data[1]), ...)\<close>.\<close>

definition written_datetime :: "pylib \<Rightarrow> string \<Rightarrow> int option" where
  "written_datetime lib line =
     (case line_data line of
        d0 # d1 # ds \<Rightarrow> to_datetime lib (d0 @ '' '' @ d1)
      | other \<Rightarrow> None)"

text \<open>The lines that a generator has still to read.\<close>

fun gen_lines :: "filesystem \<Rightarrow> generator \<Rightarrow> string list" where
  "gen_lines fs (NotStarted p) = (case open_text fs p of Inl e \<Rightarrow> [] | Inr ls \<Rightarrow> ls)"
| "gen_lines fs (Suspended g ls) = ls"
| "gen_lines fs Finished = []"

text \<open>What the generator and the buffer of the monitor writer leave as it is: the five
  fields of the alignment, the generator itself, and the table \<^verbatim>\<open>data\<close>.\<close>

definition kept :: "mstate \<Rightarrow> mstate \<Rightarrow> bool" where
  "kept s s' =
     (mw_eof (snd s') = mw_eof (snd s) \<and> mw_aeof (snd s') = mw_aeof (snd s)
      \<and> mw_t_delta_max (snd s') = mw_t_delta_max (snd s)
      \<and> mw_monitor_ev (snd s') = mw_monitor_ev (snd s)
      \<and> mw_next_monitor_ev (snd s') = mw_next_monitor_ev (snd s)
      \<and> mw_monitor_it (snd s') = mw_monitor_it (snd s)
      \<and> fst s' ''data'' = fst s ''data'')"

text \<open>A batch with a row labelled 0 and the columns \<open>imon\<close> and \<open>t_cpu\<close>; a batch
  whose row 0 has the cycle index \<open>i\<close> and the time \<open>t\<close>.\<close>

definition has0 :: "frame \<Rightarrow> bool" where
  "has0 df = (0 \<in> fst ` set (rows df) \<and> ''imon'' \<in> set (columns df) \<and> ''t_cpu'' \<in> set (columns df))"

definition batch_at :: "frame \<Rightarrow> int \<Rightarrow> int \<Rightarrow> bool" where
  "batch_at df i t =
     (loc_get df 0 ''imon'' = Inr (CInt i) \<and> loc_get df 0 ''t_cpu'' = Inr (CTime t))"

text \<open>The cycle index of the next batch that a generator yields, if it yields one.\<close>

fun next_imon :: "generator \<Rightarrow> int" where
  "next_imon (NotStarted p) = 0"
| "next_imon (Suspended g ls) = g_imon g + 1"
| "next_imon Finished = 0"


text \<open>The cycle index of the current monitor batch, \<^verbatim>\<open>self.monitor_ev.loc[0, 'imon']\<close>.\<close>

definition current_imon :: "mstate \<Rightarrow> int" where
  "current_imon s =
     (case loc_get (mw_monitor_ev (snd s)) 0 ''imon'' of Inr (CInt i) \<Rightarrow> i | other \<Rightarrow> 0)"

text \<open>A run of the aligner: \<^verbatim>\<open>match_to_data_events\<close> on the data batches one after
  the other; for every call the batch as it leaves the call and the state after it.\<close>

fun match_events ::
  "pylib \<Rightarrow> filesystem \<Rightarrow> mstate \<Rightarrow> frame list \<Rightarrow> pyerror + (frame \<times> mstate) list" where
  "match_events lib fs s [] = Inr []"
| "match_events lib fs s (d # ds) =
     (case match_to_data_events lib fs s d of
        Inl e \<Rightarrow> Inl e
      | Inr (d', s') \<Rightarrow>
          (case match_events lib fs s' ds of
             Inl e \<Rightarrow> Inl e
           | Inr out \<Rightarrow> Inr ((d', s') # out)))"

text \<open>The invariant of the alignment: the current and the lookahead batch have a row 0
  with a cycle index and a time, the index of the current batch is not beyond that of
  the lookahead, and as long as the log is not at its end the batches still to come have
  larger indices.\<close>

definition aligned :: "mstate \<Rightarrow> bool" where
  "aligned s =
     (\<exists>a b ta tb.
        batch_at (mw_monitor_ev (snd s)) a ta \<and> batch_at (mw_next_monitor_ev (snd s)) b tb
        \<and> a \<le> b \<and> (mw_eof (snd s) \<or> b < next_imon (mw_monitor_it (snd s))))"

text \<open>The \<^verbatim>\<open>while\<close> loop of a call: it does not run for a data batch without a time.\<close>

definition after_loop :: "pylib \<Rightarrow> filesystem \<Rightarrow> int option \<Rightarrow> mstate \<Rightarrow> pyerror + mstate" where
  "after_loop lib fs td s0 =
     (case td of None \<Rightarrow> Inr s0 | Some t \<Rightarrow> match_loop lib fs t s0)"

text \<open>The spec's words for \<open>maxGapSeen\<close>: the largest timestamp delta between
  consecutive real cycles, over the timestamps of the cycles seen so far (0 before there
  are two).\<close>

fun spec_maxGapSeen :: "int list \<Rightarrow> int" where
  "spec_maxGapSeen (t1 # t2 # ts) = max (t2 - t1) (spec_maxGapSeen (t2 # ts))"
| "spec_maxGapSeen ts = 0"

text \<open>The lead of the lookahead batch over a data batch, as a call of
  \<^verbatim>\<open>match_to_data_events\<close> finds it when it starts:
  \<^verbatim>\<open>t_cpu_next_monitor - t_cpu_data\<close>; there is none when a time is NaT. The leads
  of a run, call by call.\<close>

definition lead :: "mstate \<Rightarrow> frame \<Rightarrow> int option" where
  "lead s d =
     (case (loc_time d, loc_time (mw_next_monitor_ev (snd s))) of
        (Inr (Some td), Inr (Some tn)) \<Rightarrow> Some (tn - td)
      | other \<Rightarrow> None)"

fun leads :: "mstate \<Rightarrow> frame list \<Rightarrow> (frame \<times> mstate) list \<Rightarrow> int list" where
  "leads s (d # ds) ((d', s') # out) =
     (case lead s d of None \<Rightarrow> [] | Some x \<Rightarrow> [x]) @ leads s' ds out"
| "leads s ds out = []"

text \<open>The local variables of the generator after a line, when no exception left it.\<close>

fun result_locals :: "line_result \<Rightarrow> gen_locals option" where
  "result_locals (Continue s g) = Some g"
| "result_locals (Yielded df g s) = Some g"
| "result_locals (Raised e s) = None"


definition data_rows :: "hdfstore \<Rightarrow> nat" where
  "data_rows st = (case st ''data'' of None \<Rightarrow> 0 | Some t \<Rightarrow> length (rows (t_frame t)))"



text \<open>A batch that holds the records \<open>rs\<close> under the columns \<open>cs\<close>, with the default
  index 0, 1, ...: what a caller hands to \<^verbatim>\<open>append_event\<close>.\<close>

definition batch :: "string list \<Rightarrow> row list \<Rightarrow> frame" where
  "batch cs rs = \<lparr>columns = cs, rows = reindex rs\<rparr>"

text \<open>The column \<^verbatim>\<open>iev\<close> of the table \<^verbatim>\<open>data\<close> in the file that a run of the writer
  leaves, in the order of the rows.\<close>

definition written_iev :: "pyerror + (dl1_writer \<times> filesystem) \<Rightarrow> pyerror + cell list option" where
  "written_iev res =
     (case res of
        Inl e \<Rightarrow> Inl e
      | Inr (w, fs) \<Rightarrow>
          (case fs (dw_path w) of
             Some (HDFFile st) \<Rightarrow>
               Inr (map_option (\<lambda>t. map (\<lambda>(l, r). r ''iev'') (rows (t_frame t))) (st ''data''))
           | other \<Rightarrow> Inr None))"


subsection \<open>Inputs of the examples\<close>

text \<open>
  A library for the closed examples: the timestamps of three log lines ten seconds apart
  (the first is the epoch plus one hour, so its batch has the time 0), a few integers
  and floats, eight bytes for every cell of a frame, and no narrowing of floats. On the
  strings used below it agrees with what pandas and Python return.
\<close>

definition example_clock :: "(string \<times> int) list" where
  "example_clock =
     [(''1970-01-01 01:00:00:000000'', 3600000000000),
      (''1970-01-01 01:00:10:000000'', 3610000000000),
      (''1970-01-01 01:00:20:000000'', 3620000000000)]"

definition example_lib :: pylib where
  "example_lib =
     \<lparr>to_datetime = map_of example_clock,
      py_int = map_of [(''0'', 0), (''1'', 1), (''40'', 40)],
      py_float = map_of [(''20.5'', CFloat 20.5)],
      memory_usage = (\<lambda>df. 8 * length (columns df) * length (rows df)),
      downcast_float = (\<lambda>column v. v)\<rparr>"

text \<open>A data batch of one record: event \<open>iev\<close>, pixel \<open>pixel\<close>, at the time \<open>t\<close>.\<close>

definition example_event :: "int \<Rightarrow> int \<Rightarrow> int \<Rightarrow> frame" where
  "example_event iev pixel t =
     \<lparr>columns = [''iev'', ''pixel'', ''first_cell_id'', ''t_tack'', ''t_cpu''],
      rows = [(0, (\<lambda>c. NA)(''iev'' := CInt iev, ''pixel'' := CInt pixel,
                            ''first_cell_id'' := CInt 7, ''t_tack'' := CInt 1000,
                            ''t_cpu'' := CTime t))]\<rparr>"

definition fresh_writer :: dl1_writer where
  "fresh_writer =
     \<lparr>dw_path = ''run.h5'', dw_totalrows = 1, dw_metadata = [], dw_n_bytes = 0,
      dw_df_list = [], dw_df_list_n_bytes = 0, dw_monitor = None, dw_store = Map.empty\<rparr>"

text \<open>A file system in which \<^verbatim>\<open>run.h5\<close> holds the table of an earlier run.\<close>

definition old_store :: hdfstore where
  "old_store = [''data'' \<mapsto> \<lparr>t_frame = example_event 5 0 0, t_metadata = Some [(''n_bytes'', MInt 40)]\<rparr>]"

definition old_fs :: filesystem where
  "old_fs = [''run.h5'' \<mapsto> HDFFile old_store]"

definition no_create_directory :: create_directory_fn where
  "no_create_directory d fs = Inr fs"

text \<open>A telemetry log: one sample, and the ends of three cycles at 0, 10 and 20 seconds
  (the log is an hour ahead).\<close>

definition example_log :: "string list" where
  "example_log =
     [''1970-01-01 01:00:00:000000 TM T_PRI 1 20.5'' @ [newline],
      ''1970-01-01 01:00:00:000000 Monitoring Event Done'' @ [newline],
      ''1970-01-01 01:00:10:000000 Monitoring Event Done'' @ [newline],
      ''1970-01-01 01:00:20:000000 Monitoring Event Done'' @ [newline]]"


text \<open>The file system with that log; the same with an empty line in front of the log;
  the monitor writer as its constructor has it before the first \<^verbatim>\<open>next\<close>.\<close>

definition log_fs :: filesystem where
  "log_fs = [''monitor.log'' \<mapsto> TextFile example_log]"

definition blank_fs :: filesystem where
  "blank_fs = [''monitor.log'' \<mapsto> TextFile ([newline] # example_log)]"

definition new_monitor_writer :: "string \<Rightarrow> monitor_writer" where
  "new_monitor_writer p =
     \<lparr>mw_metadata = [], mw_n_bytes = 0, mw_df_list = [], mw_df_list_n_bytes = 0,
      mw_eof = False, mw_aeof = False, mw_t_delta_max = 0,
      mw_monitor_it = NotStarted p,
      mw_monitor_ev = empty_df, mw_next_monitor_ev = empty_df,
      mw_stdout = []\<rparr>"



text \<open>The columns and a record of \<open>example_event\<close>; the library with a
  \<^verbatim>\<open>memory_usage\<close> of half a gigabyte for every record of a frame.\<close>

definition example_columns :: "string list" where
  "example_columns = [''iev'', ''pixel'', ''first_cell_id'', ''t_tack'', ''t_cpu'']"

definition example_record :: "int \<Rightarrow> row" where
  "example_record iev =
     (\<lambda>c. NA)(''iev'' := CInt iev, ''pixel'' := CInt 0, ''first_cell_id'' := CInt 7,
              ''t_tack'' := CInt 1000, ''t_cpu'' := CTime 0)"

definition heavy_lib :: pylib where
  "heavy_lib = example_lib\<lparr>memory_usage := (\<lambda>df. 500000000 * length (rows df))\<rparr>"


section \<open>Properties\<close>

subsection \<open>The generator\<close>

lemma kept_refl: "kept s s"
  by (simp add: kept_def)

lemma kept_trans: "kept s s1 \<Longrightarrow> kept s1 s2 \<Longrightarrow> kept s s2"
  by (simp add: kept_def)

lemma rows_set_column: "rows (set_column df c v) = map (\<lambda>(l, r). (l, r(c := v))) (rows df)"
  by (simp add: set_column_def)

lemma append_to_file_kept:
  "MonitorWriter_append_to_file lib s = Inr s' \<Longrightarrow> kept s s'"
  by (auto simp: MonitorWriter_append_to_file_def kept_def Let_def store_append_def
           split: prod.splits if_splits sum.splits option.splits)

lemma append_monitor_event_Inr_kept:
  "append_monitor_event lib s df = Inr s' \<Longrightarrow> kept s s'"
  by (auto simp: append_monitor_event_def Let_def split: prod.splits if_splits sum.splits
           dest!: append_to_file_kept) (auto simp: kept_def)

lemma append_monitor_event_Inl_kept:
  "append_monitor_event lib s df = Inl (e, s') \<Longrightarrow> kept s s'"
  by (auto simp: append_monitor_event_def Let_def kept_def split: prod.splits if_splits sum.splits)

lemma report_kept: "kept s (report s line)"
  by (simp add: report_def kept_def split: prod.splits)

lemma kept_report: "kept s s1 \<Longrightarrow> kept s (report s1 line)"
  using kept_trans report_kept by blast

lemma gen_line_Yielded:
  assumes "gen_line lib s g line = Yielded df g' s'"
  shows "contains ''Monitoring Event Done'' line"
    and "\<exists>t. written_datetime lib line = Some t \<and>
           df = set_column (set_column (g_df g) ''imon'' (CInt (g_imon g))) ''t_cpu'' (CTime (t - hour))"
    and "g_imon g' = g_imon g" and "g_df g' = df" and "g_path g' = g_path g"
    and "append_monitor_event lib s df = Inr s'"
  using assms
  by (auto simp: gen_line_def Let_def written_datetime_def
           split: list.splits option.splits if_splits sum.splits prod.splits)

lemma gen_line_Yielded_kept: "gen_line lib s g line = Yielded df g' s' \<Longrightarrow> kept s s'"
  using gen_line_Yielded(6) append_monitor_event_Inr_kept by blast

lemma gen_line_Continue_kept: "gen_line lib s g line = Continue s' g' \<Longrightarrow> kept s s'"
  by (auto simp: gen_line_def Let_def
           split: list.splits option.splits if_splits sum.splits prod.splits
           intro: kept_refl report_kept kept_report append_monitor_event_Inl_kept)

lemma gen_line_Raised_kept: "gen_line lib s g line = Raised e s' \<Longrightarrow> kept s s'"
  by (auto simp: gen_line_def Let_def
           split: list.splits option.splits if_splits sum.splits prod.splits
           intro: kept_refl append_monitor_event_Inl_kept)

lemma add_metadata_kept: "MonitorWriter_add_metadata s kw = Inr s' \<Longrightarrow> kept s s'"
  by (auto simp: MonitorWriter_add_metadata_def kept_def split: prod.splits sum.splits)

lemma gen_loop_kept: "gen_loop lib s g ls = (out, gen, s') \<Longrightarrow> kept s s'"
proof (induction ls arbitrary: s g)
  case Nil
  then show ?case by (auto split: sum.splits intro: kept_refl add_metadata_kept)
next
  case (Cons line ls)
  show ?case
  proof (cases "gen_line lib s g line")
    case (Continue s1 g1)
    with Cons.prems have "gen_loop lib s1 g1 ls = (out, gen, s')" by simp
    from Cons.IH [OF this] gen_line_Continue_kept [OF Continue] show ?thesis
      by (rule kept_trans [rotated])
  next
    case (Yielded df g1 s1)
    with Cons.prems gen_line_Yielded_kept [OF Yielded] show ?thesis by simp
  next
    case (Raised e s1)
    with Cons.prems gen_line_Raised_kept [OF Raised] show ?thesis by simp
  qed
qed


lemma set_column_all: "list_all (\<lambda>(l, r). r c = v) (rows (set_column df c v))"
  by (auto simp: set_column_def list_all_iff)

lemma has0_empty_df: "has0 empty_df"
proof -
  have "(0::int) \<in> (\<lambda>x. int x) ` {0..<32}"
    by (rule image_eqI [where x = 0]) simp_all
  then show ?thesis
    by (simp add: has0_def empty_df_def n_modules_def supported_def image_comp comp_def)
qed

lemma has0_loc_set: "has0 df \<Longrightarrow> has0 (loc_set df l c v)"
  by (auto simp: has0_def loc_set_def image_iff split: if_splits) force+

lemma map_of_set_column:
  "map_of (map (\<lambda>(l, r). (l, r(c := v))) rs) l = map_option (\<lambda>r. r(c := v)) (map_of rs l)"
  by (induction rs) auto

lemma loc_get_set_column:
  "loc_get (set_column df c v) l c' =
     (if c' \<in> set (columns df) \<or> c' = c
      then (case map_of (rows df) l of
              None \<Rightarrow> Inl (KeyError ''label'')
            | Some r \<Rightarrow> Inr (if c' = c then v else r c'))
      else Inl (KeyError c'))"
  by (auto simp: loc_get_def set_column_def map_of_set_column split: option.splits)

lemma columns_set_column:
  "set (columns (set_column df c v)) = insert c (set (columns df))"
  by (auto simp: set_column_def)

lemma stamped_batch_at:
  "has0 df \<Longrightarrow> batch_at (set_column (set_column df ''imon'' (CInt i)) ''t_cpu'' (CTime t)) i t"
  by (auto simp: has0_def batch_at_def loc_get_set_column columns_set_column rows_set_column
                 map_of_set_column map_of_eq_None_iff
           split: option.splits)

lemma stamped_has0:
  "has0 df \<Longrightarrow> has0 (set_column (set_column df ''imon'' (CInt i)) ''t_cpu'' (CTime t))"
  by (auto simp: has0_def set_column_def image_iff) force+

lemma gen_line_Continue_locals:
  "gen_line lib s g line = Continue s' g' \<Longrightarrow> has0 (g_df g) \<Longrightarrow>
   has0 (g_df g') \<and> g_imon g' = g_imon g"
  by (auto simp: gen_line_def Let_def
           split: list.splits option.splits if_splits sum.splits prod.splits
           intro: has0_loc_set stamped_has0)

lemma gen_loop_Yield_batch:
  "gen_loop lib s g ls = (Yield df, gen, s') \<Longrightarrow> has0 (g_df g) \<Longrightarrow>
   \<exists>t g' ls'. gen = Suspended g' ls' \<and> g_imon g' = g_imon g \<and> batch_at df (g_imon g) t"
proof (induction ls arbitrary: s g)
  case Nil
  then show ?case by (simp split: sum.splits)
next
  case (Cons line ls)
  show ?case
  proof (cases "gen_line lib s g line")
    case (Continue s1 g1)
    with Cons.prems have "gen_loop lib s1 g1 ls = (Yield df, gen, s')" by simp
    from Cons.IH [OF this] gen_line_Continue_locals [OF Continue Cons.prems(2)]
    show ?thesis by auto
  next
    case (Yielded df1 g1 s1)
    with Cons.prems have "df1 = df" "gen = Suspended g1 ls" by simp_all
    with gen_line_Yielded(2,3) [OF Yielded] Cons.prems(2) show ?thesis
      by (auto intro: stamped_batch_at)
  next
    case (Raised e s1)
    with Cons.prems show ?thesis by simp
  qed
qed

lemma gen_next_kept:
  "gen_next lib fs s = (out, s') \<Longrightarrow>
   mw_eof (snd s') = mw_eof (snd s) \<and> mw_aeof (snd s') = mw_aeof (snd s)
   \<and> mw_t_delta_max (snd s') = mw_t_delta_max (snd s)
   \<and> mw_monitor_ev (snd s') = mw_monitor_ev (snd s)
   \<and> mw_next_monitor_ev (snd s') = mw_next_monitor_ev (snd s)
   \<and> fst s' ''data'' = fst s ''data''"
  by (auto simp: gen_next_def kept_def split: generator.splits sum.splits prod.splits
           dest!: gen_loop_kept)

lemma gen_next_Yield_batch:
  assumes "gen_next lib fs s = (Yield df, s')"
  shows "\<exists>t. batch_at df (next_imon (mw_monitor_it (snd s))) t
         \<and> next_imon (mw_monitor_it (snd s')) = next_imon (mw_monitor_it (snd s)) + 1"
  using assms
  by (auto simp: gen_next_def has0_empty_df split: generator.splits sum.splits prod.splits
           dest!: gen_loop_Yield_batch)


lemma columns_set_column_eq:
  "columns (set_column df c v) = (if c \<in> set (columns df) then columns df else columns df @ [c])"
  by (simp add: set_column_def)

lemma columns_loc_set:
  "columns (loc_set df l c v) = (if c \<in> set (columns df) then columns df else columns df @ [c])"
  by (simp add: loc_set_def)

lemma length_rows_loc_set:
  "length (rows (loc_set df l c v)) =
     (if l \<in> fst ` set (rows df) then length (rows df) else Suc (length (rows df)))"
  by (simp add: loc_set_def)

lemma fst_update_rows:
  "fst \<circ> (\<lambda>(l', r). if l' = l then (l', g r) else (l', r)) = fst"
  by (auto simp: fun_eq_iff)

lemma fst_set_rows: "fst \<circ> (\<lambda>(l', r). (l', g r)) = fst"
  by (auto simp: fun_eq_iff)

lemma labels_loc_set:
  "fst ` set (rows (loc_set df l c v)) = insert l (fst ` set (rows df))"
  unfolding loc_set_def by (auto simp: image_comp fst_update_rows)

lemma labels_set_column:
  "fst ` set (rows (set_column df c v)) = fst ` set (rows df)"
  unfolding set_column_def by (simp add: image_comp fst_set_rows)

lemma columns_empty_df:
  "columns empty_df = [''imon'', ''t_cpu'', ''module'', ''TM_T_PRI'', ''TM_T_AUX'', ''TM_T_PSU'', ''TM_T_SIPM'']"
  by (simp add: empty_df_def supported_def)

lemma length_rows_empty_df: "length (rows empty_df) = 32"
  by (simp add: empty_df_def n_modules_def)

lemma labels_empty_df: "fst ` set (rows empty_df) = {0..<32}"
  by (simp add: empty_df_def n_modules_def image_comp comp_def image_int_atLeastLessThan)

lemmas frame_eval = columns_set_column_eq columns_loc_set length_rows_loc_set labels_loc_set
  labels_set_column columns_empty_df length_rows_empty_df labels_empty_df rows_set_column

lemma gen_line_shift:
  assumes "written_datetime lib line = Some t"
  shows "(\<exists>g1. result_locals (gen_line lib s g line) = Some g1 \<and> g_t_cpu g1 = Some (t - hour))
       \<or> (\<exists>e s1. gen_line lib s g line = Raised e s1 \<and> e \<noteq> ValueError
                 \<and> contains ''Monitoring Event Done'' line)"
proof -
  from assms obtain d0 d1 ds where
    d: "line_data line = d0 # d1 # ds" and t: "to_datetime lib (d0 @ '' '' @ d1) = Some t"
    by (auto simp: written_datetime_def split: list.splits)
  have ne: "line \<noteq> []"
    using d by (auto simp: line_data_def)
  show ?thesis
  proof (cases "contains ''Monitoring Event Done'' line")
    case True
    let ?g2 = "g\<lparr>g_t_cpu := Some (t - hour),
                  g_start_time := (case g_start_time g of None \<Rightarrow> Some (t - hour) | Some x \<Rightarrow> Some x)\<rparr>"
    let ?df = "set_column (set_column (g_df g) ''imon'' (CInt (g_imon g))) ''t_cpu'' (CTime (t - hour))"
    show ?thesis
    proof (cases "append_monitor_event lib s ?df")
      case (Inl es)
      obtain e s1 where es: "es = (e, s1)" by (cases es)
      with Inl d t ne True show ?thesis
        by (cases "e = ValueError") (simp_all add: gen_line_def Let_def)
    next
      case (Inr s1)
      with d t ne True show ?thesis by (simp add: gen_line_def Let_def)
    qed
  next
    case False
    show ?thesis
    proof (cases "length (line_data line) < 6")
      case True
      with d t ne False show ?thesis by (simp add: gen_line_def Let_def)
    next
      case long: False
      show ?thesis
      proof (cases "line_data line ! 2 @ ''_'' @ line_data line ! 3 \<in> set supported")
        case k: False
        with d t ne False long show ?thesis by (simp add: gen_line_def Let_def)
      next
        case k: True
        show ?thesis
        proof (cases "py_int lib (line_data line ! 4)")
          case None
          with d t ne False long k show ?thesis by (simp add: gen_line_def Let_def)
        next
          case (Some i)
          with d t ne False long k show ?thesis
            by (cases "py_float lib (line_data line ! 5)") (simp_all add: gen_line_def Let_def)
        qed
      qed
    qed
  qed
qed


lemma gen_loop_Yield_stamp:
  "gen_loop lib s g ls = (Yield df, gen, s') \<Longrightarrow> has0 (g_df g) \<Longrightarrow>
   \<exists>pre line ls' g' t.
      ls = pre @ line # ls' \<and> gen = Suspended g' ls' \<and>
      contains ''Monitoring Event Done'' line \<and> written_datetime lib line = Some t \<and>
      batch_at df (g_imon g) (t - hour) \<and> rows df \<noteq> [] \<and>
      list_all (\<lambda>(l, r). r ''t_cpu'' = CTime (t - hour)) (rows df) \<and>
      g_t_cpu g' = Some (t - hour)"
proof (induction ls arbitrary: s g)
  case Nil
  then show ?case by (simp split: sum.splits)
next
  case (Cons line ls)
  show ?case
  proof (cases "gen_line lib s g line")
    case (Continue s1 g1)
    with Cons.prems have l: "gen_loop lib s1 g1 ls = (Yield df, gen, s')" by simp
    from gen_line_Continue_locals [OF Continue Cons.prems(2)] have
      h: "has0 (g_df g1)" "g_imon g1 = g_imon g" by simp_all
    from Cons.IH [OF l h(1)] h(2) obtain pre l' ls' g' t where
      r: "ls = pre @ l' # ls'" "gen = Suspended g' ls'"
         "contains ''Monitoring Event Done'' l'" "written_datetime lib l' = Some t"
         "batch_at df (g_imon g) (t - hour)" "rows df \<noteq> []"
         "list_all (\<lambda>(l, r). r ''t_cpu'' = CTime (t - hour)) (rows df)"
         "g_t_cpu g' = Some (t - hour)"
      by auto
    from r(1) have "line # ls = (line # pre) @ l' # ls'" by simp
    with r(2-8) show ?thesis by blast
  next
    case (Yielded df1 g1 s1)
    with Cons.prems have eq: "df1 = df" "gen = Suspended g1 ls" by simp_all
    from gen_line_Yielded(1,2) [OF Yielded] eq obtain t where
      y: "contains ''Monitoring Event Done'' line" "written_datetime lib line = Some t"
         "df = set_column (set_column (g_df g) ''imon'' (CInt (g_imon g))) ''t_cpu'' (CTime (t - hour))"
      by auto
    from y(3) have a: "list_all (\<lambda>(l, r). r ''t_cpu'' = CTime (t - hour)) (rows df)"
      using set_column_all by blast
    from y(3) Cons.prems(2) have b: "batch_at df (g_imon g) (t - hour)"
      by (simp add: stamped_batch_at)
    from y(3) Cons.prems(2) have c: "rows df \<noteq> []"
      by (auto simp: has0_def rows_set_column)
    from gen_line_shift [OF y(2), of s g] Yielded have d: "g_t_cpu g1 = Some (t - hour)"
      by simp
    have "line # ls = [] @ line # ls" by simp
    with eq(2) y(1,2) a b c d show ?thesis by blast
  next
    case (Raised e s1)
    with Cons.prems show ?thesis by simp
  qed
qed

subsection \<open>The alignment keeps its invariant\<close>

lemma batch_at_imon: "batch_at (mw_monitor_ev (snd s)) a ta \<Longrightarrow> current_imon s = a"
  by (simp add: batch_at_def current_imon_def)

lemma batch_at_unique: "batch_at df a ta \<Longrightarrow> batch_at df b tb \<Longrightarrow> a = b \<and> ta = tb"
  by (simp add: batch_at_def)

lemma batch_at_loc_time: "batch_at df a ta \<Longrightarrow> loc_time df = Inr (Some ta)"
  by (simp add: batch_at_def loc_time_def)

lemma synthesize_batch_at:
  "batch_at df a ta \<Longrightarrow> \<exists>df'. synthesize df d = Inr df' \<and> batch_at df' (a + 1) (ta + d)"
  by (auto simp: synthesize_def batch_at_def intro!: stamped_batch_at [unfolded batch_at_def] has0_empty_df)

lemma advance_aligned:
  assumes "aligned s" and "\<not> mw_eof (snd s)" and "advance lib fs s = Inr s'"
  shows "aligned s' \<and> current_imon s \<le> current_imon s'
         \<and> mw_t_delta_max (snd s') = mw_t_delta_max (snd s)
         \<and> mw_aeof (snd s') = mw_aeof (snd s)"
proof -
  obtain st mw where s: "s = (st, mw)" by (cases s)
  from assms(1,2) s obtain a b ta tb where
    ab: "batch_at (mw_monitor_ev mw) a ta" "batch_at (mw_next_monitor_ev mw) b tb" "a \<le> b"
        "b < next_imon (mw_monitor_it mw)"
    by (auto simp: aligned_def)
  let ?s1 = "(st, mw\<lparr>mw_monitor_ev := mw_next_monitor_ev mw\<rparr>)"
  obtain out s2 where g: "gen_next lib fs ?s1 = (out, s2)" by (cases "gen_next lib fs ?s1")
  note k = gen_next_kept [OF g]
  have cur: "current_imon s = a" using ab(1) s by (simp add: batch_at_imon)
  show ?thesis
  proof (cases out)
    case (Yield df)
    from gen_next_Yield_batch [OF g [unfolded Yield]] obtain t where
      y: "batch_at df (next_imon (mw_monitor_it mw)) t"
         "next_imon (mw_monitor_it (snd s2)) = next_imon (mw_monitor_it mw) + 1"
      by auto
    from assms(3) s g Yield have s': "s' = (fst s2, (snd s2)\<lparr>mw_next_monitor_ev := df\<rparr>)"
      by (auto simp: advance_def split: prod.splits)
    have "aligned s'"
      unfolding aligned_def using s' k ab y assms(2) s
      by (intro exI [of _ b] exI [of _ "next_imon (mw_monitor_it mw)"] exI [of _ tb] exI [of _ t])
         auto
    moreover have "current_imon s' = b"
      using s' k ab(2) by (simp add: current_imon_def batch_at_def)
    ultimately show ?thesis using cur ab(3) s' k s by simp
  next
    case Stop
    from k have m2: "mw_monitor_ev (snd s2) = mw_next_monitor_ev mw" by simp
    from synthesize_batch_at [OF ab(2), of "mw_t_delta_max (snd s2)"] m2 obtain df' where
      sy: "synthesize (mw_monitor_ev (snd s2)) (mw_t_delta_max (snd s2)) = Inr df'"
          "batch_at df' (b + 1) (tb + mw_t_delta_max (snd s2))"
      by auto
    from assms(3) s g Stop sy(1) have
      s': "s' = (fst s2, (snd s2)\<lparr>mw_eof := True, mw_next_monitor_ev := df'\<rparr>)"
      by (auto simp: advance_def split: prod.splits)
    have "aligned s'"
      unfolding aligned_def using s' m2 ab sy(2)
      by (intro exI [of _ b] exI [of _ "b + 1"] exI [of _ tb]
                exI [of _ "tb + mw_t_delta_max (snd s2)"]) auto
    moreover have "current_imon s' = b"
      using s' m2 ab(2) by (simp add: current_imon_def batch_at_def)
    ultimately show ?thesis using cur ab(3) s' k s by simp
  next
    case (Raise e)
    with assms(3) s g show ?thesis by (simp add: advance_def)
  qed
qed


lemma match_loop_advance:
  "loc_time (mw_next_monitor_ev (snd s)) = Inr (Some tn) \<Longrightarrow> t > tn \<Longrightarrow> \<not> mw_eof (snd s) \<Longrightarrow>
   match_loop lib fs t s =
     (case advance lib fs s of Inl e \<Rightarrow> Inl e | Inr s' \<Rightarrow> match_loop lib fs t s')"
  by (subst match_loop.simps) simp

lemma match_loop_stay:
  "loc_time (mw_next_monitor_ev (snd s)) = Inr (Some tn) \<Longrightarrow> \<not> (t > tn \<and> \<not> mw_eof (snd s)) \<Longrightarrow>
   match_loop lib fs t s = Inr s"
  by (subst match_loop.simps) auto


lemma match_loop_aligned:
  "aligned s \<Longrightarrow> match_loop lib fs t s = Inr s' \<Longrightarrow>
   aligned s' \<and> current_imon s \<le> current_imon s'
   \<and> mw_t_delta_max (snd s') = mw_t_delta_max (snd s)
   \<and> mw_aeof (snd s') = mw_aeof (snd s)"
proof (induction lib fs t s rule: match_loop.induct)
  case (1 lib fs t s)
  from "1.prems"(1) obtain tn where tn: "loc_time (mw_next_monitor_ev (snd s)) = Inr (Some tn)"
    by (auto simp: aligned_def dest: batch_at_loc_time)
  show ?case
  proof (cases "t > tn \<and> \<not> mw_eof (snd s)")
    case True
    then have c: "t > tn" "\<not> mw_eof (snd s)" by simp_all
    from "1.prems"(2) have
      "(case advance lib fs s of Inl e \<Rightarrow> Inl e | Inr s1 \<Rightarrow> match_loop lib fs t s1) = Inr s'"
      by (simp only: match_loop_advance [OF tn c])
    then obtain s1 where
      a: "advance lib fs s = Inr s1" and m: "match_loop lib fs t s1 = Inr s'"
      by (cases "advance lib fs s") simp_all
    from advance_aligned [OF "1.prems"(1) c(2) a] have
      s1: "aligned s1" "current_imon s \<le> current_imon s1"
          "mw_t_delta_max (snd s1) = mw_t_delta_max (snd s)" "mw_aeof (snd s1) = mw_aeof (snd s)"
      by simp_all
    have cond: "(case Some tn of None \<Rightarrow> False | Some tn \<Rightarrow> tn < t) \<and> \<not> mw_eof (snd s)"
      using c by simp
    from "1.IH" [OF tn cond a s1(1) m] s1 show ?thesis by simp
  next
    case False
    from "1.prems"(2) have "s' = s"
      by (simp only: match_loop_stay [OF tn False] sum.inject)
    with "1.prems"(1) show ?thesis by simp
  qed
qed


lemma emit_tail_cases:
  assumes "emit_tail lib t (st, mw) = Inr s'"
  shows "s' = (st, mw) \<or>
         (mw_eof mw \<and> \<not> mw_aeof mw \<and>
          (\<exists>s2. append_monitor_event lib (st, mw\<lparr>mw_monitor_ev := mw_next_monitor_ev mw\<rparr>)
                  (mw_next_monitor_ev mw) = Inr s2
                \<and> s' = (fst s2, (snd s2)\<lparr>mw_aeof := True\<rparr>)))"
proof (cases "loc_time (mw_next_monitor_ev mw)")
  case (Inl e)
  with assms show ?thesis by (simp add: emit_tail_def)
next
  case (Inr tn)
  show ?thesis
  proof (cases "mw_eof mw \<and> (case (t, tn) of (Some td, Some tn) \<Rightarrow> td > tn | other \<Rightarrow> False)
                \<and> \<not> mw_aeof mw")
    case True
    with assms Inr show ?thesis
      by (cases "append_monitor_event lib (st, mw\<lparr>mw_monitor_ev := mw_next_monitor_ev mw\<rparr>)
                   (mw_next_monitor_ev mw)")
         (auto simp: emit_tail_def)
  next
    case False
    with assms Inr show ?thesis by (auto simp: emit_tail_def)
  qed
qed


lemma emit_tail_aligned:
  assumes "aligned s" and "emit_tail lib t s = Inr s'"
  shows "aligned s' \<and> current_imon s \<le> current_imon s'
         \<and> mw_t_delta_max (snd s') = mw_t_delta_max (snd s)"
proof -
  obtain st mw where s: "s = (st, mw)" by (cases s)
  from assms(1) s obtain a b ta tb where
    ab: "batch_at (mw_monitor_ev mw) a ta" "batch_at (mw_next_monitor_ev mw) b tb" "a \<le> b"
    by (auto simp: aligned_def)
  have cur: "current_imon s = a" using ab(1) s by (simp add: batch_at_imon)
  from emit_tail_cases [OF assms(2) [unfolded s]] show ?thesis
  proof
    assume "s' = (st, mw)"
    with assms(1) s show ?thesis by simp
  next
    assume "mw_eof mw \<and> \<not> mw_aeof mw \<and>
          (\<exists>s2. append_monitor_event lib (st, mw\<lparr>mw_monitor_ev := mw_next_monitor_ev mw\<rparr>)
                  (mw_next_monitor_ev mw) = Inr s2
                \<and> s' = (fst s2, (snd s2)\<lparr>mw_aeof := True\<rparr>))"
    then obtain s2 where
      e: "mw_eof mw"
      and ap: "append_monitor_event lib (st, mw\<lparr>mw_monitor_ev := mw_next_monitor_ev mw\<rparr>)
                 (mw_next_monitor_ev mw) = Inr s2"
      and s': "s' = (fst s2, (snd s2)\<lparr>mw_aeof := True\<rparr>)"
      by blast
    from append_monitor_event_Inr_kept [OF ap] have
      k: "mw_monitor_ev (snd s2) = mw_next_monitor_ev mw"
         "mw_next_monitor_ev (snd s2) = mw_next_monitor_ev mw"
         "mw_eof (snd s2) = mw_eof mw" "mw_t_delta_max (snd s2) = mw_t_delta_max mw"
      by (simp_all add: kept_def)
    have "aligned s'"
      unfolding aligned_def
    proof (intro exI conjI)
      show "batch_at (mw_monitor_ev (snd s')) b tb" using s' k ab(2) by simp
      show "batch_at (mw_next_monitor_ev (snd s')) b tb" using s' k ab(2) by simp
      show "b \<le> b" by simp
      show "mw_eof (snd s') \<or> b < next_imon (mw_monitor_it (snd s'))" using s' k e by simp
    qed
    moreover have "current_imon s' = b"
      using s' k ab(2) by (simp add: current_imon_def batch_at_def)
    ultimately show ?thesis using cur ab(3) s' k s by simp
  qed
qed

lemma update_t_delta_max_fields:
  "mw_monitor_ev (update_t_delta_max a b mw) = mw_monitor_ev mw"
  "mw_next_monitor_ev (update_t_delta_max a b mw) = mw_next_monitor_ev mw"
  "mw_eof (update_t_delta_max a b mw) = mw_eof mw"
  "mw_aeof (update_t_delta_max a b mw) = mw_aeof mw"
  "mw_monitor_it (update_t_delta_max a b mw) = mw_monitor_it mw"
  by (auto simp: update_t_delta_max_def split: option.splits)

lemma update_t_delta_max_aligned:
  "aligned (st, mw) \<Longrightarrow> aligned (st, update_t_delta_max a b mw)"
  by (simp add: aligned_def update_t_delta_max_fields)

lemma current_imon_update_t_delta_max:
  "current_imon (st, update_t_delta_max a b mw) = current_imon (st, mw)"
  by (simp add: current_imon_def update_t_delta_max_fields)

lemma monitor_index_rows:
  assumes "monitor_index mev d = Inr d'" and "batch_at mev a ta"
  shows "list_all (\<lambda>(l, r). r ''monitor_index'' = index_cell a (r ''pixel'')) (rows d')"
proof -
  from assms(2) have "loc_get mev 0 ''imon'' = Inr (CInt a)" by (simp add: batch_at_def)
  with assms(1) have "d' = set_column_by d ''monitor_index'' (\<lambda>r. index_cell a (r ''pixel''))"
    by (simp add: monitor_index_def split: if_splits)
  then show ?thesis
    by (auto simp: set_column_by_def list_all_iff)
qed


lemma match_to_data_events_steps:
  assumes "match_to_data_events lib fs (st, mw) d = Inr (d', s')"
  shows "\<exists>td tn s1.
           loc_time d = Inr td \<and> loc_time (mw_next_monitor_ev mw) = Inr tn
           \<and> after_loop lib fs td (st, update_t_delta_max td tn mw) = Inr s1
           \<and> emit_tail lib td s1 = Inr s'
           \<and> monitor_index (mw_monitor_ev (snd s')) d = Inr d'"
proof (cases "loc_time d")
  case (Inl e)
  with assms show ?thesis by (simp add: match_to_data_events_def)
next
  case td: (Inr td)
  show ?thesis
  proof (cases "loc_time (mw_next_monitor_ev mw)")
    case (Inl e)
    with assms td show ?thesis by (simp add: match_to_data_events_def)
  next
    case tn: (Inr tn)
    show ?thesis
    proof (cases "after_loop lib fs td (st, update_t_delta_max td tn mw)")
      case (Inl e)
      with assms td tn show ?thesis
        by (simp add: match_to_data_events_def after_loop_def)
    next
      case s1: (Inr s1)
      show ?thesis
      proof (cases "emit_tail lib td s1")
        case (Inl e)
        with assms td tn s1 show ?thesis
          by (simp add: match_to_data_events_def after_loop_def)
      next
        case s2: (Inr s2)
        show ?thesis
        proof (cases "monitor_index (mw_monitor_ev (snd s2)) d")
          case (Inl e)
          with assms td tn s1 s2 show ?thesis
            by (simp add: match_to_data_events_def after_loop_def)
        next
          case (Inr d2)
          with assms td tn s1 s2 have "d2 = d'" "s2 = s'"
            by (simp_all add: match_to_data_events_def after_loop_def)
          with td tn s1 s2 Inr show ?thesis
            by (intro exI [of _ td] exI [of _ tn] exI [of _ s1]) simp
        qed
      qed
    qed
  qed
qed


lemma match_aligned:
  assumes "aligned s" and "match_to_data_events lib fs s d = Inr (d', s')"
  shows "aligned s' \<and> current_imon s \<le> current_imon s'
         \<and> list_all (\<lambda>(l, r). r ''monitor_index'' = index_cell (current_imon s') (r ''pixel''))
              (rows d')"
proof -
  obtain st mw where s: "s = (st, mw)" by (cases s)
  from match_to_data_events_steps [OF assms(2) [unfolded s]] obtain td tn s1 where
    l: "after_loop lib fs td (st, update_t_delta_max td tn mw) = Inr s1"
    and e: "emit_tail lib td s1 = Inr s'"
    and m: "monitor_index (mw_monitor_ev (snd s')) d = Inr d'"
    by blast
  let ?s0 = "(st, update_t_delta_max td tn mw)"
  have a0: "aligned ?s0" using assms(1) s by (simp add: update_t_delta_max_aligned)
  have c0: "current_imon ?s0 = current_imon s" using s by (simp add: current_imon_update_t_delta_max)
  have s1: "aligned s1 \<and> current_imon ?s0 \<le> current_imon s1"
  proof (cases td)
    case None
    with l a0 show ?thesis by (simp add: after_loop_def)
  next
    case (Some t)
    with l have "match_loop lib fs t ?s0 = Inr s1" by (simp add: after_loop_def)
    from match_loop_aligned [OF a0 this] show ?thesis by simp
  qed
  then have "aligned s1" by simp
  from emit_tail_aligned [OF this e] have
    s2: "aligned s'" "current_imon s1 \<le> current_imon s'" by simp_all
  from s2(1) obtain a ta where b: "batch_at (mw_monitor_ev (snd s')) a ta"
    by (auto simp: aligned_def)
  from monitor_index_rows [OF m b] batch_at_imon [OF b] s1 s2 c0 show ?thesis by simp
qed

lemma init_aligned:
  assumes "MonitorWriter_init lib fs st p = Inr s"
  shows "aligned s \<and> mw_t_delta_max (snd s) = 0 \<and> \<not> mw_eof (snd s) \<and> \<not> mw_aeof (snd s)"
proof -
  let ?mw = "\<lparr>mw_metadata = [], mw_n_bytes = 0, mw_df_list = [], mw_df_list_n_bytes = 0,
                mw_eof = False, mw_aeof = False, mw_t_delta_max = 0,
                mw_monitor_it = NotStarted p,
                mw_monitor_ev = empty_df, mw_next_monitor_ev = empty_df,
                mw_stdout = []\<rparr>"
  obtain out s1 where g: "gen_next lib fs (st, ?mw) = (out, s1)"
    by (cases "gen_next lib fs (st, ?mw)")
  with assms obtain df where
    y: "out = Yield df"
    and s: "s = (fst s1, (snd s1)\<lparr>mw_monitor_ev := df, mw_next_monitor_ev := df\<rparr>)"
    by (cases out; cases s1) (simp_all add: MonitorWriter_init_def Let_def)
  note k = gen_next_kept [OF g]
  from gen_next_Yield_batch [OF g [unfolded y]] obtain t where
    b: "batch_at df 0 t" "next_imon (mw_monitor_it (snd s1)) = 1" by auto
  have "aligned s"
    unfolding aligned_def
  proof (intro exI conjI)
    show "batch_at (mw_monitor_ev (snd s)) 0 t" using s b by simp
    show "batch_at (mw_next_monitor_ev (snd s)) 0 t" using s b by simp
    show "(0::int) \<le> 0" by simp
    show "mw_eof (snd s) \<or> 0 < next_imon (mw_monitor_it (snd s))" using s b by simp
  qed
  with s k show ?thesis by simp
qed

lemma match_events_aligned:
  "aligned s \<Longrightarrow> match_events lib fs s evs = Inr out \<Longrightarrow>
   sorted (current_imon s # map (\<lambda>(d, s). current_imon s) out)
   \<and> list_all (\<lambda>(d, s). list_all (\<lambda>(l, r). r ''monitor_index'' = index_cell (current_imon s) (r ''pixel''))
                          (rows d)) out"
proof (induction evs arbitrary: s out)
  case Nil
  then show ?case by simp
next
  case (Cons d ds)
  from Cons.prems(2) obtain d' s' out' where
    m: "match_to_data_events lib fs s d = Inr (d', s')"
    and r: "match_events lib fs s' ds = Inr out'" and o: "out = (d', s') # out'"
    by (cases "match_to_data_events lib fs s d"; cases "match_events lib fs
          (snd (projr (match_to_data_events lib fs s d))) ds") auto
  from match_aligned [OF Cons.prems(1) m] have
    a: "aligned s'" "current_imon s \<le> current_imon s'"
       "list_all (\<lambda>(l, r). r ''monitor_index'' = index_cell (current_imon s') (r ''pixel'')) (rows d')"
    by simp_all
  from Cons.IH [OF a(1) r] a o show ?case by auto
qed

subsection \<open>Evaluation of the examples\<close>

lemma loc_time_example_event: "loc_time (example_event iev pixel t) = Inr (Some t)"
  by (simp add: loc_time_def loc_get_def example_event_def)

lemma pixel_example_event:
  "''pixel'' \<in> set (columns (example_event iev pixel t))"
  "\<not> list_ex (\<lambda>(l, r). case r ''pixel'' of CTime t \<Rightarrow> True | c \<Rightarrow> False)
       (rows (example_event iev pixel t))"
  by (simp_all add: example_event_def)

lemma loc_get_stamped:
  "has0 df \<Longrightarrow>
   loc_get (set_column (set_column df ''imon'' (CInt i)) ''t_cpu'' (CTime t)) 0 ''imon'' = Inr (CInt i)"
  "has0 df \<Longrightarrow>
   loc_get (set_column (set_column df ''imon'' (CInt i)) ''t_cpu'' (CTime t)) 0 ''t_cpu'' = Inr (CTime t)"
  using stamped_batch_at [of df i t] by (simp_all add: batch_at_def)

lemma loc_time_stamped:
  "has0 df \<Longrightarrow>
   loc_time (set_column (set_column df ''imon'' (CInt i)) ''t_cpu'' (CTime t)) = Inr (Some t)"
  by (simp add: loc_time_def loc_get_stamped)

lemmas run_eval =
  MonitorWriter_init_def gen_next_def open_text_def log_fs_def example_log_def gen_line_def
  line_data_def newline_def example_lib_def example_clock_def Let_def supported_def
  append_monitor_event_def flush_threshold_def frame_eval
  match_to_data_events_def update_t_delta_max_def match_loop.simps advance_def synthesize_def
  emit_tail_def monitor_index_def loc_time_example_event pixel_example_event loc_get_stamped loc_time_stamped
  has0_empty_df has0_loc_set hour_def MonitorWriter_add_metadata_def add_metadata_dict_def

subsection \<open>The aligner\<close>

text \<open>
  C1. Over the calls of \<^verbatim>\<open>match_to_data_events\<close> of a run, from the constructor
  on, the cycle index of the current monitor batch never decreases, and every record of
  a data batch gets the monitor index \<^verbatim>\<open>imon * n_modules + pixel // n_tmpix\<close> of that
  cycle index: for one pixel the monitor index never decreases from call to call. The
  timestamps of the data batches need not increase for this.
\<close>

theorem monitor_index_never_regresses:
  assumes "MonitorWriter_init lib fs st monitor_path = Inr s0"
    and "match_events lib fs s0 evs = Inr out"
  shows "sorted (map (\<lambda>(d, s). current_imon s) out)
       \<and> list_all (\<lambda>(d, s).
            list_all (\<lambda>(l, r). r ''monitor_index'' = index_cell (current_imon s) (r ''pixel''))
                     (rows d)) out"
proof -
  from init_aligned [OF assms(1)] have "aligned s0" by simp
  from match_events_aligned [OF this assms(2)] show ?thesis by simp
qed

lemma example_run:
  "case MonitorWriter_init example_lib log_fs Map.empty ''monitor.log'' of
     Inl e \<Rightarrow> False
   | Inr s0 \<Rightarrow>
       (case match_events example_lib log_fs s0
               [example_event 0 70 5000000000, example_event 1 70 15000000000] of
          Inl e \<Rightarrow> False
        | Inr out \<Rightarrow> map (\<lambda>(d, s). current_imon s) out = [0, 1])"
  by (simp add: run_eval current_imon_def)

theorem monitor_index_never_regresses_witness:
  "\<exists>s0 out.
     MonitorWriter_init example_lib log_fs Map.empty ''monitor.log'' = Inr s0
     \<and> match_events example_lib log_fs s0
          [example_event 0 70 5000000000, example_event 1 70 15000000000] = Inr out
     \<and> map (\<lambda>(d, s). current_imon s) out = [0, 1]
     \<and> sorted (map (\<lambda>(d, s). current_imon s) out)
     \<and> list_all (\<lambda>(d, s).
            list_all (\<lambda>(l, r). r ''monitor_index'' = index_cell (current_imon s) (r ''pixel''))
                     (rows d)) out"
proof -
  from example_run obtain s0 out where
    h: "MonitorWriter_init example_lib log_fs Map.empty ''monitor.log'' = Inr s0"
       "match_events example_lib log_fs s0
          [example_event 0 70 5000000000, example_event 1 70 15000000000] = Inr out"
       "map (\<lambda>(d, s). current_imon s) out = [0, 1]"
    by (auto split: sum.splits)
  from monitor_index_never_regresses [OF h(1,2)] h show ?thesis
    by (intro exI [of _ s0] exI [of _ out]) simp
qed

lemma advance_at_exhaustion:
  assumes "gen_next lib fs (st, mw\<lparr>mw_monitor_ev := mw_next_monitor_ev mw\<rparr>) = (Stop, (st', mw'))"
    and "batch_at (mw_next_monitor_ev mw) i t"
  shows "\<exists>df. advance lib fs (st, mw) = Inr (st', mw'\<lparr>mw_eof := True, mw_next_monitor_ev := df\<rparr>)
              \<and> batch_at df (i + 1) (t + mw_t_delta_max mw)
              \<and> mw_monitor_ev mw' = mw_next_monitor_ev mw"
proof -
  from gen_next_kept [OF assms(1)] have
    k: "mw_monitor_ev mw' = mw_next_monitor_ev mw" "mw_t_delta_max mw' = mw_t_delta_max mw"
    by simp_all
  from synthesize_batch_at [OF assms(2), of "mw_t_delta_max mw"] obtain df where
    sy: "synthesize (mw_next_monitor_ev mw) (mw_t_delta_max mw) = Inr df"
        "batch_at df (i + 1) (t + mw_t_delta_max mw)"
    by blast
  from assms(1) sy(1) k have
    "advance lib fs (st, mw) = Inr (st', mw'\<lparr>mw_eof := True, mw_next_monitor_ev := df\<rparr>)"
    by (simp add: advance_def)
  with sy(2) k(1) show ?thesis by blast
qed

lemma match_loop_eof:
  "mw_eof (snd s) \<Longrightarrow> match_loop lib fs t s = Inr s' \<Longrightarrow> s' = s"
  by (subst (asm) match_loop.simps) (simp split: sum.splits)

lemma no_advance_after_eof:
  assumes "mw_eof (snd s)" and "match_to_data_events lib fs s d = Inr (d', s')"
  shows "mw_eof (snd s') \<and> mw_next_monitor_ev (snd s') = mw_next_monitor_ev (snd s)
       \<and> mw_monitor_it (snd s') = mw_monitor_it (snd s)
       \<and> (mw_monitor_ev (snd s') = mw_monitor_ev (snd s)
          \<or> \<not> mw_aeof (snd s) \<and> mw_aeof (snd s')
            \<and> mw_monitor_ev (snd s') = mw_next_monitor_ev (snd s))"
proof -
  obtain st mw where s: "s = (st, mw)" by (cases s)
  from match_to_data_events_steps [OF assms(2) [unfolded s]] obtain td tn s1 where
    l: "after_loop lib fs td (st, update_t_delta_max td tn mw) = Inr s1"
    and e: "emit_tail lib td s1 = Inr s'"
    by blast
  let ?mw0 = "update_t_delta_max td tn mw"
  have e0: "mw_eof ?mw0" using assms(1) s by (simp add: update_t_delta_max_fields)
  have s1: "s1 = (st, ?mw0)"
  proof (cases td)
    case None
    with l show ?thesis by (simp add: after_loop_def)
  next
    case (Some t)
    with l have "match_loop lib fs t (st, ?mw0) = Inr s1" by (simp add: after_loop_def)
    with e0 match_loop_eof [of "(st, ?mw0)" lib fs t s1] show ?thesis by simp
  qed
  from emit_tail_cases [OF e [unfolded s1]] show ?thesis
  proof
    assume "s' = (st, ?mw0)"
    with s assms(1) show ?thesis by (simp add: update_t_delta_max_fields)
  next
    assume "mw_eof ?mw0 \<and> \<not> mw_aeof ?mw0 \<and>
          (\<exists>s2. append_monitor_event lib (st, ?mw0\<lparr>mw_monitor_ev := mw_next_monitor_ev ?mw0\<rparr>)
                  (mw_next_monitor_ev ?mw0) = Inr s2
                \<and> s' = (fst s2, (snd s2)\<lparr>mw_aeof := True\<rparr>))"
    then obtain s2 where
      na: "\<not> mw_aeof ?mw0"
      and ap: "append_monitor_event lib (st, ?mw0\<lparr>mw_monitor_ev := mw_next_monitor_ev ?mw0\<rparr>)
                 (mw_next_monitor_ev ?mw0) = Inr s2"
      and s': "s' = (fst s2, (snd s2)\<lparr>mw_aeof := True\<rparr>)"
      by blast
    from append_monitor_event_Inr_kept [OF ap] have
      "mw_monitor_ev (snd s2) = mw_next_monitor_ev ?mw0"
      "mw_next_monitor_ev (snd s2) = mw_next_monitor_ev ?mw0"
      "mw_eof (snd s2) = mw_eof ?mw0" "mw_monitor_it (snd s2) = mw_monitor_it ?mw0"
      by (simp_all add: kept_def)
    with s s' na e0 show ?thesis by (simp add: update_t_delta_max_fields)
  qed
qed

lemma stamped_example_event:
  "list_all (\<lambda>(l, r). r ''monitor_index'' = v)
     (rows (set_column_by (example_event iev pixel t) ''monitor_index''
              (\<lambda>r. index_cell a (r ''pixel''))))
   = (v = index_cell a (CInt pixel))"
  by (auto simp: set_column_by_def example_event_def)

lemma before_exhaustion:
  "case MonitorWriter_init example_lib log_fs Map.empty ''monitor.log'' of
     Inl e \<Rightarrow> False
   | Inr s0 \<Rightarrow>
       (case match_to_data_events example_lib log_fs s0 (example_event 0 0 15000000000) of
          Inl e \<Rightarrow> False
        | Inr (d, s) \<Rightarrow>
            batch_at (mw_next_monitor_ev (snd s)) 2 20000000000
            \<and> mw_t_delta_max (snd s) = 0
            \<and> (case gen_next example_lib log_fs
                       (fst s, (snd s)\<lparr>mw_monitor_ev := mw_next_monitor_ev (snd s)\<rparr>) of
                 (Stop, s') \<Rightarrow> True
               | other \<Rightarrow> False))"
  by (simp add: run_eval batch_at_def time_meta_def)

lemma after_exhaustion:
  "case MonitorWriter_init example_lib log_fs Map.empty ''monitor.log'' of
     Inl e \<Rightarrow> False
   | Inr s0 \<Rightarrow>
       (case match_to_data_events example_lib log_fs s0 (example_event 0 0 35000000000) of
          Inl e \<Rightarrow> False
        | Inr (d, s) \<Rightarrow>
            mw_eof (snd s)
            \<and> (case match_to_data_events example_lib log_fs s (example_event 1 0 100000000000) of
                 Inl e \<Rightarrow> False
               | Inr (d', s') \<Rightarrow> batch_at (mw_monitor_ev (snd s')) 3 20000000000))"
  by (simp add: run_eval batch_at_def)


text \<open>
  C2. When the generator has no batch left, the round of the loop that finds this out
  makes up one lookahead batch: the cycle index of the last real batch plus one, its
  time plus \<open>t_delta_max\<close> (the largest lead seen so far, see C3; it is 0 when every
  data batch came after the lookahead of its call), and that batch becomes current
  there. From then on no call advances or makes up a batch again: the lookahead and the
  generator stay as they are, and the current batch moves at most once more, to the
  lookahead, when a data batch is later than it.
\<close>

theorem one_synthetic_batch_after_exhaustion:
  "(gen_next lib fs (st, mw\<lparr>mw_monitor_ev := mw_next_monitor_ev mw\<rparr>) = (Stop, (st', mw'))
      \<longrightarrow> batch_at (mw_next_monitor_ev mw) i t
      \<longrightarrow> (\<exists>df. advance lib fs (st, mw) = Inr (st', mw'\<lparr>mw_eof := True, mw_next_monitor_ev := df\<rparr>)
              \<and> batch_at df (i + 1) (t + mw_t_delta_max mw)
              \<and> mw_monitor_ev mw' = mw_next_monitor_ev mw))
   \<and> (mw_eof (snd s) \<longrightarrow> match_to_data_events lib fs s d = Inr (d', s')
      \<longrightarrow> mw_eof (snd s') \<and> mw_next_monitor_ev (snd s') = mw_next_monitor_ev (snd s)
          \<and> mw_monitor_it (snd s') = mw_monitor_it (snd s)
          \<and> (mw_monitor_ev (snd s') = mw_monitor_ev (snd s)
             \<or> \<not> mw_aeof (snd s) \<and> mw_aeof (snd s')
               \<and> mw_monitor_ev (snd s') = mw_next_monitor_ev (snd s)))"
  using advance_at_exhaustion no_advance_after_eof by blast

theorem one_synthetic_batch_after_exhaustion_witness:
  "\<exists>st mw st' mw' df s d' s'.
     gen_next example_lib log_fs (st, mw\<lparr>mw_monitor_ev := mw_next_monitor_ev mw\<rparr>) = (Stop, (st', mw'))
     \<and> batch_at (mw_next_monitor_ev mw) 2 20000000000 \<and> mw_t_delta_max mw = 0
     \<and> advance example_lib log_fs (st, mw) = Inr (st', mw'\<lparr>mw_eof := True, mw_next_monitor_ev := df\<rparr>)
     \<and> batch_at df 3 20000000000
     \<and> mw_eof (snd s)
     \<and> match_to_data_events example_lib log_fs s (example_event 1 0 100000000000) = Inr (d', s')
     \<and> mw_next_monitor_ev (snd s') = mw_next_monitor_ev (snd s)"
proof -
  from before_exhaustion obtain st mw st' mw' where
    a: "gen_next example_lib log_fs (st, mw\<lparr>mw_monitor_ev := mw_next_monitor_ev mw\<rparr>) = (Stop, (st', mw'))"
       "batch_at (mw_next_monitor_ev mw) 2 20000000000" "mw_t_delta_max mw = 0"
    by (auto split: sum.splits prod.splits outcome.splits)
  from after_exhaustion obtain s0 where
    i: "MonitorWriter_init example_lib log_fs Map.empty ''monitor.log'' = Inr s0"
    by (cases "MonitorWriter_init example_lib log_fs Map.empty ''monitor.log''") auto
  with after_exhaustion obtain d s where
    m: "match_to_data_events example_lib log_fs s0 (example_event 0 0 35000000000) = Inr (d, s)"
    by (cases "match_to_data_events example_lib log_fs s0 (example_event 0 0 35000000000)") auto
  with after_exhaustion i obtain d' s' where
    b: "mw_eof (snd s)"
       "match_to_data_events example_lib log_fs s (example_event 1 0 100000000000) = Inr (d', s')"
    by (cases "match_to_data_events example_lib log_fs s (example_event 1 0 100000000000)") auto
  from one_synthetic_batch_after_exhaustion [THEN conjunct1, rule_format, OF a(1,2)] a(3)
  obtain df where
    c: "advance example_lib log_fs (st, mw) = Inr (st', mw'\<lparr>mw_eof := True, mw_next_monitor_ev := df\<rparr>)"
       "batch_at df 3 20000000000"
    by auto
  from one_synthetic_batch_after_exhaustion [THEN conjunct2, rule_format, OF b(1,2)]
  have d: "mw_next_monitor_ev (snd s') = mw_next_monitor_ev (snd s)" by simp
  from a b c d show ?thesis by blast
qed

text \<open>
  With real cycles at 0, 10 and 20 seconds and one data batch at 35 seconds the call
  reaches the end of the log with \<open>t_delta_max = 0\<close>: the one batch made up has the
  index 3 and the time 20 seconds, it is emitted as the terminal batch and the data
  batch gets its index. There is no cycle at 30 seconds and none at 40 seconds.
\<close>

theorem exhaustion_synthesizes_one_cycle_at_20:
  "case MonitorWriter_init example_lib log_fs Map.empty ''monitor.log'' of
     Inl e \<Rightarrow> False
   | Inr s0 \<Rightarrow>
       (case match_to_data_events example_lib log_fs s0 (example_event 0 0 35000000000) of
          Inl e \<Rightarrow> False
        | Inr (d, s) \<Rightarrow>
            mw_t_delta_max (snd s) = 0 \<and> mw_eof (snd s) \<and> mw_aeof (snd s)
            \<and> batch_at (mw_monitor_ev (snd s)) 3 20000000000
            \<and> batch_at (mw_next_monitor_ev (snd s)) 3 20000000000
            \<and> \<not> batch_at (mw_monitor_ev (snd s)) 3 30000000000
            \<and> \<not> batch_at (mw_next_monitor_ev (snd s)) 4 40000000000
            \<and> list_all (\<lambda>(l, r). r ''monitor_index'' = CInt (3 * 32)) (rows d))"
  by (simp add: run_eval batch_at_def stamped_example_event)
     (simp add: index_cell_def n_modules_def n_tmpix_def)

lemma match_t_delta_max:
  assumes "aligned s" and "match_to_data_events lib fs s d = Inr (d', s')"
  shows "mw_t_delta_max (snd s') =
           (case lead s d of None \<Rightarrow> mw_t_delta_max (snd s)
            | Some x \<Rightarrow> max (mw_t_delta_max (snd s)) x)"
proof -
  obtain st mw where s: "s = (st, mw)" by (cases s)
  from match_to_data_events_steps [OF assms(2) [unfolded s]] obtain td tn s1 where
    td: "loc_time d = Inr td" and tn: "loc_time (mw_next_monitor_ev mw) = Inr tn"
    and l: "after_loop lib fs td (st, update_t_delta_max td tn mw) = Inr s1"
    and e: "emit_tail lib td s1 = Inr s'"
    by blast
  let ?s0 = "(st, update_t_delta_max td tn mw)"
  have a0: "aligned ?s0" using assms(1) s by (simp add: update_t_delta_max_aligned)
  have s1: "aligned s1 \<and> mw_t_delta_max (snd s1) = mw_t_delta_max (snd ?s0)"
  proof (cases td)
    case None
    with l a0 show ?thesis by (simp add: after_loop_def)
  next
    case (Some t)
    with l have "match_loop lib fs t ?s0 = Inr s1" by (simp add: after_loop_def)
    from match_loop_aligned [OF a0 this] show ?thesis by simp
  qed
  then have "aligned s1" by simp
  from emit_tail_aligned [OF this e] s1 have
    "mw_t_delta_max (snd s') = mw_t_delta_max (update_t_delta_max td tn mw)" by simp
  also have "\<dots> = (case lead s d of None \<Rightarrow> mw_t_delta_max (snd s)
            | Some x \<Rightarrow> max (mw_t_delta_max (snd s)) x)"
    using td tn s by (auto simp: lead_def update_t_delta_max_def split: option.splits)
  finally show ?thesis .
qed

lemma match_events_t_delta_max:
  "aligned s \<Longrightarrow> match_events lib fs s evs = Inr out \<Longrightarrow>
   mw_t_delta_max (snd (last (s # map snd out))) = fold max (leads s evs out) (mw_t_delta_max (snd s))"
proof (induction evs arbitrary: s out)
  case Nil
  then show ?case by simp
next
  case (Cons d ds)
  from Cons.prems(2) obtain d' s' out' where
    m: "match_to_data_events lib fs s d = Inr (d', s')"
    and r: "match_events lib fs s' ds = Inr out'" and o: "out = (d', s') # out'"
    by (cases "match_to_data_events lib fs s d"; cases "match_events lib fs
          (snd (projr (match_to_data_events lib fs s d))) ds") auto
  from match_aligned [OF Cons.prems(1) m] have a: "aligned s'" by simp
  from Cons.IH [OF a r] match_t_delta_max [OF Cons.prems(1) m] o show ?case
    by (auto split: option.splits simp: max.commute)
qed

text \<open>
  C3. \<open>t_delta_max\<close> is not the largest gap between consecutive monitor cycles: over a
  run it is the largest lead of the lookahead batch over a data batch that a call found
  when it started, and 0 when no lead was positive.
\<close>

theorem t_delta_max_is_largest_lead:
  assumes "MonitorWriter_init lib fs st monitor_path = Inr s0"
    and "match_events lib fs s0 evs = Inr out"
  shows "mw_t_delta_max (snd (last (s0 # map snd out))) = Max (set (0 # leads s0 evs out))"
proof -
  from init_aligned [OF assms(1)] have a: "aligned s0" "mw_t_delta_max (snd s0) = 0" by simp_all
  have "Max (set (0 # leads s0 evs out)) = fold max (leads s0 evs out) 0"
    by (rule Max.set_eq_fold)
  with match_events_t_delta_max [OF a(1) assms(2)] a(2) show ?thesis
    by (simp only:)
qed

lemma lead_run:
  "case MonitorWriter_init example_lib log_fs Map.empty ''monitor.log'' of
     Inl e \<Rightarrow> False
   | Inr s0 \<Rightarrow>
       (case match_events example_lib log_fs s0
               [example_event 0 70 5000000000, example_event 1 70 6000000000] of
          Inl e \<Rightarrow> False
        | Inr out \<Rightarrow>
            leads s0 [example_event 0 70 5000000000, example_event 1 70 6000000000] out
              = [- 5000000000, 4000000000]
            \<and> mw_t_delta_max (snd (last (s0 # map snd out))) = 4000000000)"
  by (simp add: run_eval lead_def)

theorem t_delta_max_is_largest_lead_witness:
  "\<exists>s0 out.
     MonitorWriter_init example_lib log_fs Map.empty ''monitor.log'' = Inr s0
     \<and> match_events example_lib log_fs s0
          [example_event 0 70 5000000000, example_event 1 70 6000000000] = Inr out
     \<and> leads s0 [example_event 0 70 5000000000, example_event 1 70 6000000000] out
          = [- 5000000000, 4000000000]
     \<and> mw_t_delta_max (snd (last (s0 # map snd out)))
          = Max (set (0 # leads s0 [example_event 0 70 5000000000, example_event 1 70 6000000000] out))"
proof -
  from lead_run obtain s0 out where
    h: "MonitorWriter_init example_lib log_fs Map.empty ''monitor.log'' = Inr s0"
       "match_events example_lib log_fs s0
          [example_event 0 70 5000000000, example_event 1 70 6000000000] = Inr out"
       "leads s0 [example_event 0 70 5000000000, example_event 1 70 6000000000] out
          = [- 5000000000, 4000000000]"
    by (auto split: sum.splits)
  from t_delta_max_is_largest_lead [OF h(1,2)] h show ?thesis
    by (intro exI [of _ s0] exI [of _ out]) simp
qed

text \<open>
  With cycles at 0, 10 and 20 seconds and one data batch at 3 seconds, the call leaves
  the cycle at 0 as the current batch and the cycle at 10 seconds as the lookahead: two
  consecutive real cycles, 10 seconds apart, have been seen, and \<open>t_delta_max\<close> is 0.
\<close>

theorem t_delta_max_is_not_the_cycle_gap:
  "case MonitorWriter_init example_lib log_fs Map.empty ''monitor.log'' of
     Inl e \<Rightarrow> False
   | Inr s0 \<Rightarrow>
       (case match_to_data_events example_lib log_fs s0 (example_event 0 0 3000000000) of
          Inl e \<Rightarrow> False
        | Inr (d, s) \<Rightarrow>
            batch_at (mw_monitor_ev (snd s)) 0 0
            \<and> batch_at (mw_next_monitor_ev (snd s)) 1 10000000000
            \<and> spec_maxGapSeen [0, 10000000000] = 10000000000
            \<and> mw_t_delta_max (snd s) = 0)"
  by (simp add: run_eval batch_at_def)

subsection \<open>The telemetry parser\<close>

text \<open>
  C9. Every batch that the generator yields is stamped with the date-time written in a
  log line minus one hour: the line is the end-of-cycle line at which the generator
  stopped (the lines before it are read, the lines after it are still to read), the
  batch has rows, its row 0 and every other row carry that time, and so does the local
  \<open>t_cpu\<close> of the generator. The hour is subtracted for every line whose date-time
  parses, end of a cycle or not: after such a line the local \<open>t_cpu\<close> (which becomes
  \<open>end_time\<close> at the end of the file) is the written time minus one hour, unless an
  exception other than ValueError, which only the flush at the end of a cycle can
  raise, leaves the generator.
\<close>

theorem snapshot_time_is_written_time_minus_hour:
  "(gen_next lib fs s = (Yield df, s') \<longrightarrow>
      (\<exists>pre line t g ls.
          gen_lines fs (mw_monitor_it (snd s)) = pre @ line # ls
          \<and> mw_monitor_it (snd s') = Suspended g ls
          \<and> contains ''Monitoring Event Done'' line
          \<and> written_datetime lib line = Some t
          \<and> batch_at df (next_imon (mw_monitor_it (snd s))) (t - hour)
          \<and> rows df \<noteq> []
          \<and> list_all (\<lambda>(l, r). r ''t_cpu'' = CTime (t - hour)) (rows df)
          \<and> g_t_cpu g = Some (t - hour)))
   \<and> (written_datetime lib line' = Some t' \<longrightarrow>
        (\<exists>g1. result_locals (gen_line lib s0 g0 line') = Some g1 \<and> g_t_cpu g1 = Some (t' - hour))
        \<or> (\<exists>e s1. gen_line lib s0 g0 line' = Raised e s1 \<and> e \<noteq> ValueError
                  \<and> contains ''Monitoring Event Done'' line'))"
proof (intro conjI impI)
  assume a: "gen_next lib fs s = (Yield df, s')"
  show "\<exists>pre line t g ls.
          gen_lines fs (mw_monitor_it (snd s)) = pre @ line # ls
          \<and> mw_monitor_it (snd s') = Suspended g ls
          \<and> contains ''Monitoring Event Done'' line
          \<and> written_datetime lib line = Some t
          \<and> batch_at df (next_imon (mw_monitor_it (snd s))) (t - hour)
          \<and> rows df \<noteq> []
          \<and> list_all (\<lambda>(l, r). r ''t_cpu'' = CTime (t - hour)) (rows df)
          \<and> g_t_cpu g = Some (t - hour)"
  proof (cases "mw_monitor_it (snd s)")
    case (NotStarted p)
    with a obtain ls g gen s1 where
      l: "gen_loop lib s g ls = (Yield df, gen, s1)" "gen_lines fs (mw_monitor_it (snd s)) = ls"
         "mw_monitor_it (snd s') = gen" "has0 (g_df g)"
         "g_imon g = next_imon (mw_monitor_it (snd s))"
      by (auto simp: gen_next_def has0_empty_df split: sum.splits prod.splits)
    from gen_loop_Yield_stamp [OF l(1,4)] l(2,3,5) show ?thesis by force
  next
    case (Suspended g0 ls0)
    with a obtain ls g gen s1 where
      l: "gen_loop lib s g ls = (Yield df, gen, s1)" "gen_lines fs (mw_monitor_it (snd s)) = ls"
         "mw_monitor_it (snd s') = gen" "has0 (g_df g)"
         "g_imon g = next_imon (mw_monitor_it (snd s))"
      by (auto simp: gen_next_def has0_empty_df split: sum.splits prod.splits)
    from gen_loop_Yield_stamp [OF l(1,4)] l(2,3,5) show ?thesis by force
  next
    case Finished
    with a show ?thesis by (simp add: gen_next_def split: prod.splits)
  qed
next
  assume "written_datetime lib line' = Some t'"
  from gen_line_shift [OF this]
  show "(\<exists>g1. result_locals (gen_line lib s0 g0 line') = Some g1 \<and> g_t_cpu g1 = Some (t' - hour))
        \<or> (\<exists>e s1. gen_line lib s0 g0 line' = Raised e s1 \<and> e \<noteq> ValueError
                  \<and> contains ''Monitoring Event Done'' line')" .
qed


lemma first_yield:
  "\<exists>df s'. gen_next example_lib log_fs (Map.empty, new_monitor_writer ''monitor.log'') = (Yield df, s')
           \<and> batch_at df 0 0"
  by (simp add: run_eval new_monitor_writer_def batch_at_def)

lemma sample_line:
  "written_datetime example_lib (hd example_log) = Some 3600000000000
   \<and> \<not> contains ''Monitoring Event Done'' (hd example_log)"
  by (simp add: written_datetime_def example_log_def line_data_def newline_def example_lib_def
                example_clock_def)

theorem snapshot_time_is_written_time_minus_hour_witness:
  "(\<exists>df s' pre line t g ls.
      gen_next example_lib log_fs (Map.empty, new_monitor_writer ''monitor.log'') = (Yield df, s')
      \<and> example_log = pre @ line # ls
      \<and> mw_monitor_it (snd s') = Suspended g ls
      \<and> contains ''Monitoring Event Done'' line
      \<and> written_datetime example_lib line = Some t
      \<and> t - hour = 0
      \<and> batch_at df 0 0 \<and> rows df \<noteq> []
      \<and> list_all (\<lambda>(l, r). r ''t_cpu'' = CTime 0) (rows df)
      \<and> g_t_cpu g = Some 0)
   \<and> written_datetime example_lib (hd example_log) = Some 3600000000000
   \<and> (\<exists>g1. result_locals (gen_line example_lib (Map.empty, new_monitor_writer ''monitor.log'')
                   \<lparr>g_path = ''monitor.log'', g_imon = 0, g_t_cpu = None, g_start_time = None,
                    g_df = empty_df\<rparr> (hd example_log)) = Some g1
           \<and> g_t_cpu g1 = Some 0)"
proof -
  let ?s0 = "(Map.empty, new_monitor_writer ''monitor.log'')"
  from first_yield obtain df s' where
    h: "gen_next example_lib log_fs ?s0 = (Yield df, s')" and b: "batch_at df 0 0"
    by blast
  have l: "gen_lines log_fs (mw_monitor_it (snd ?s0)) = example_log"
    by (simp add: new_monitor_writer_def log_fs_def open_text_def)
  have n: "next_imon (mw_monitor_it (snd ?s0)) = 0"
    by (simp add: new_monitor_writer_def)
  have first: "\<exists>df s' pre line t g ls.
      gen_next example_lib log_fs ?s0 = (Yield df, s')
      \<and> example_log = pre @ line # ls
      \<and> mw_monitor_it (snd s') = Suspended g ls
      \<and> contains ''Monitoring Event Done'' line
      \<and> written_datetime example_lib line = Some t
      \<and> t - hour = 0
      \<and> batch_at df 0 0 \<and> rows df \<noteq> []
      \<and> list_all (\<lambda>(l, r). r ''t_cpu'' = CTime 0) (rows df)
      \<and> g_t_cpu g = Some 0"
    using snapshot_time_is_written_time_minus_hour [THEN conjunct1, rule_format, OF h] h b l n
    apply (elim exE conjE)
    subgoal for pre line t g ls
      apply (rule exI [of _ df], rule exI [of _ s'], rule exI [of _ pre], rule exI [of _ line],
             rule exI [of _ t], rule exI [of _ g], rule exI [of _ ls])
      apply (subgoal_tac "t - hour = 0")
       apply simp
      apply (simp add: batch_at_def)
      done
    done
  from sample_line have w: "written_datetime example_lib (hd example_log) = Some 3600000000000"
    and nc: "\<not> contains ''Monitoring Event Done'' (hd example_log)"
    by simp_all
  from snapshot_time_is_written_time_minus_hour [THEN conjunct2, rule_format, OF w,
         of ?s0 "\<lparr>g_path = ''monitor.log'', g_imon = 0, g_t_cpu = None, g_start_time = None,
                   g_df = empty_df\<rparr>"] nc
  have second: "\<exists>g1. result_locals (gen_line example_lib ?s0
                   \<lparr>g_path = ''monitor.log'', g_imon = 0, g_t_cpu = None, g_start_time = None,
                    g_df = empty_df\<rparr> (hd example_log)) = Some g1
           \<and> g_t_cpu g1 = Some 0"
    by (simp add: hour_def)
  from first w second show ?thesis by blast
qed

text \<open>
  C6. A line with fewer than six fields is to be ignored and parsing is to go on. With
  an empty line (a line that holds nothing but its newline) in front of the log, the
  generator ends with an IndexError at \<^verbatim>\<open>data[1]\<close>: the constructor of the monitor
  writer fails, although the log has three complete cycles after that line.
\<close>

theorem empty_line_ends_parsing: "MonitorWriter_init example_lib blank_fs Map.empty ''monitor.log'' = Inl IndexError"
  by (simp add: MonitorWriter_init_def gen_next_def open_text_def blank_fs_def gen_line_def line_data_def newline_def)



subsection \<open>Construction of the writers\<close>

text \<open>
  C4. Constructing the monitor writer with a path of the telemetry log that does not exist
  fails with an IO error. The check of \<^verbatim>\<open>exists\<close> in the constructor builds the
  exception without raising it; the failure is that of \<^verbatim>\<open>open\<close>, when the
  constructor asks the generator for the first batch: a \<^verbatim>\<open>FileNotFoundError\<close>, which
  nothing catches.
\<close>

theorem MonitorWriter_init_missing_file:
  "\<not> exists_path fs monitor_path \<Longrightarrow>
   MonitorWriter_init lib fs st monitor_path = Inl FileNotFoundError
   \<and> is_IOError FileNotFoundError"
  by (simp add: MonitorWriter_init_def gen_next_def open_text_def exists_path_def Let_def)

theorem MonitorWriter_init_missing_file_witness:
  "\<not> exists_path old_fs ''monitor.log''
   \<and> MonitorWriter_init example_lib old_fs Map.empty ''monitor.log'' = Inl FileNotFoundError"
proof -
  have h: "\<not> exists_path old_fs ''monitor.log''"
    by (simp add: exists_path_def old_fs_def)
  from MonitorWriter_init_missing_file [OF h] h show ?thesis by simp
qed

text \<open>
  C10. Opening a writer deletes a file that is at the path: when the constructor returns,
  the file at the path is a new, empty store, whatever was there, the buffer is empty
  and no byte is counted. Without a monitor path the store of the writer is the empty
  store; with one, it is the store that the monitor writer got empty and returns.
\<close>

theorem DL1Writer_init_starts_empty:
  assumes "DL1Writer_init lib create_directory fs dl1_path totalrows monitor_path = Inr (w, fs')"
  shows "fs' dl1_path = Some (HDFFile Map.empty)
       \<and> dw_df_list w = [] \<and> dw_n_bytes w = 0
       \<and> (case monitor_path of
            None \<Rightarrow> dw_store w = Map.empty
          | Some p \<Rightarrow>
              if p = [] then dw_store w = Map.empty
              else \<exists>mw. MonitorWriter_init lib fs' Map.empty p = Inr (dw_store w, mw)
                        \<and> dw_monitor w = Some mw)"
  using assms
  by (auto simp: DL1Writer_init_def HDFStore_open_def exists_path_def remove_path_def Let_def
           split: sum.splits option.splits fs_entry.splits if_splits prod.splits)

theorem DL1Writer_init_starts_empty_witness:
  "old_fs ''run.h5'' = Some (HDFFile old_store) \<and> old_store ''data'' \<noteq> None
   \<and> (case DL1Writer_init example_lib no_create_directory old_fs ''run.h5'' 1 None of
        Inl e \<Rightarrow> False
      | Inr (w, fs') \<Rightarrow> fs' ''run.h5'' = Some (HDFFile Map.empty) \<and> dw_store w = Map.empty)"
proof -
  have "\<exists>w fs'. DL1Writer_init example_lib no_create_directory old_fs ''run.h5'' 1 None = Inr (w, fs')"
    by (simp add: DL1Writer_init_def no_create_directory_def old_fs_def exists_path_def
                  remove_path_def HDFStore_open_def)
  then obtain w fs' where
    h: "DL1Writer_init example_lib no_create_directory old_fs ''run.h5'' 1 None = Inr (w, fs')"
    by blast
  from DL1Writer_init_starts_empty [OF h] h show ?thesis
    by (simp add: old_fs_def old_store_def)
qed

subsection \<open>The flush of the data writer\<close>

text \<open>
  C5. The flush is meant to give every default feature column that the combined batch
  lacks the value 0.0. For a buffer of one batch with the columns \<open>iev\<close>, \<open>pixel\<close>,
  \<open>first_cell_id\<close>, \<open>t_tack\<close> and \<open>t_cpu\<close> the table written has neither the column
  \<open>tr\<close> nor the column \<open>baseline_start_mean\<close>; it has a column
  \<open>trbaseline_start_mean\<close> instead.
\<close>

theorem flush_misses_tr_and_baseline_start_mean:
  "map_sum id (\<lambda>w. map_option (\<lambda>t. columns (t_frame t)) (dw_store w ''data''))
     (DL1Writer_append_to_file example_lib (fresh_writer\<lparr>dw_df_list := [example_event 0 0 0]\<rparr>)) =
   Inr (Some [''iev'', ''pixel'', ''first_cell_id'', ''t_tack'', ''t_cpu'', ''t_event'',
              ''t_pulse'', ''amp_pulse'', ''charge'', ''fwhm'', ''trbaseline_start_mean'',
              ''baseline_start_rms'', ''baseline_end_mean'', ''baseline_end_rms'',
              ''baseline_subtracted'', ''waveform_mean'', ''waveform_rms'',
              ''saturation_coeff''])"
  by (simp add: DL1Writer_append_to_file_def fresh_writer_def prepare_def backfill_def
                pd_concat_def example_event_def default_c_def has_column_def set_column_def
                downcast_floats_def downcast_column_def is_float_column_def example_lib_def
                astype_uint_def sort_values_def store_append_def reindex_def restrict_row_def)

subsection \<open>The reader of a written file\<close>











lemma store_append_data_other:
  "store_append st ''data'' df = Inr st' \<Longrightarrow> k \<noteq> ''data'' \<Longrightarrow> st' k = st k"
  by (auto simp: store_append_def split: if_splits option.splits)






lemma data_rows_cong: "st' ''data'' = st ''data'' \<Longrightarrow> data_rows st' = data_rows st"
  by (simp add: data_rows_def)
















subsection \<open>The buffer of the data writer\<close>

lemma uniq_append_subset: "set ys \<subseteq> set xs \<Longrightarrow> uniq (xs @ ys) = uniq xs"
proof (induction xs arbitrary: ys rule: uniq.induct)
  case 1
  then show ?case by simp
next
  case (2 x xs)
  have "set (filter (\<lambda>y. y \<noteq> x) ys) \<subseteq> set (filter (\<lambda>y. y \<noteq> x) xs)"
    using "2.prems" by auto
  from "2.IH" [OF this] show ?case by simp
qed

lemma uniq_replicate:
  "0 < n \<Longrightarrow> uniq (xs @ concat (replicate n cs)) = uniq (xs @ cs)"
proof (induction n)
  case 0
  then show ?case by simp
next
  case (Suc n)
  have "set (concat (replicate n cs)) \<subseteq> set (xs @ cs)" by auto
  from uniq_append_subset [OF this] show ?case by simp
qed

lemma columns_batches:
  "concat (map columns (map (batch cs) gs)) = concat (replicate (length gs) cs)"
  by (induction gs) (simp_all add: batch_def)

lemma records_reindex: "map (\<lambda>(l, r). f r) (reindex rs) = map f rs"
proof -
  have "map (\<lambda>(l, r). f r) (reindex rs) = map f (map snd (reindex rs))"
    by (simp add: comp_def case_prod_unfold)
  then show ?thesis by (simp add: reindex_def)
qed

lemma records_batches:
  "concat (map (\<lambda>df. map (\<lambda>(l, r). restrict_row (columns df) r) (rows df)) (map (batch cs) gs))
   = map (restrict_row cs) (concat gs)"
  by (induction gs) (simp_all add: batch_def records_reindex)

lemma pd_concat_batches:
  assumes "gs \<noteq> []" "hs \<noteq> []" "concat gs = concat hs"
  shows "pd_concat (L @ map (batch cs) gs) = pd_concat (L @ map (batch cs) hs)"
proof -
  from assms have "0 < length gs" "0 < length hs" by simp_all
  then have "uniq (concat (map columns L) @ concat (replicate (length gs) cs))
           = uniq (concat (map columns L) @ concat (replicate (length hs) cs))"
    by (simp add: uniq_replicate)
  with assms(3) show ?thesis
    by (simp add: pd_concat_def columns_batches records_batches
             del: map_map)
qed

lemma append_events_buffered:
  assumes "dw_monitor w = None"
      and "dw_df_list_n_bytes w + sum_list (map (memory_usage lib) evs) < flush_threshold"
  shows "append_events lib fs w evs =
           Inr (w\<lparr>dw_df_list := dw_df_list w @ evs,
                  dw_df_list_n_bytes := dw_df_list_n_bytes w + sum_list (map (memory_usage lib) evs)\<rparr>)"
  using assms
proof (induction evs arbitrary: w)
  case Nil
  then show ?case by simp
next
  case (Cons ev evs)
  let ?w1 = "w\<lparr>dw_df_list := dw_df_list w @ [ev],
                dw_df_list_n_bytes := dw_df_list_n_bytes w + memory_usage lib ev\<rparr>"
  from Cons.prems have a: "DL1Writer_append_event lib fs w ev = Inr ?w1"
    by (simp add: DL1Writer_append_event_def Let_def)
  from Cons.prems have "dw_monitor ?w1 = None"
    "dw_df_list_n_bytes ?w1 + sum_list (map (memory_usage lib) evs) < flush_threshold"
    by simp_all
  from Cons.IH [OF this] a show ?case by (simp add: add.assoc)
qed

lemma finish_buffer:
  assumes "L \<noteq> []" "L' \<noteq> []" "pd_concat L = pd_concat L'"
  shows "DL1Writer_finish lib fs (w\<lparr>dw_df_list := L, dw_df_list_n_bytes := n\<rparr>)
       = DL1Writer_finish lib fs (w\<lparr>dw_df_list := L', dw_df_list_n_bytes := n'\<rparr>)"
proof -
  from assms have p: "prepare lib L = prepare lib L'" by (simp add: prepare_def)
  have "DL1Writer_append_to_file lib (w\<lparr>dw_df_list := L, dw_df_list_n_bytes := n\<rparr>)
      = DL1Writer_append_to_file lib (w\<lparr>dw_df_list := L', dw_df_list_n_bytes := n'\<rparr>)"
    using assms(1,2) p by (simp add: DL1Writer_append_to_file_def split: sum.splits)
  then show ?thesis by (simp add: DL1Writer_finish_def)
qed

lemmas flush_eval =
  write_run_def DL1Writer_append_event_def flush_threshold_def
  DL1Writer_finish_def DL1Writer_add_metadata_def add_metadata_dict_def
  DL1Writer_save_metadata_def store_set_metadata_def Let_def
  DL1Writer_append_to_file_def fresh_writer_def prepare_def backfill_def
  pd_concat_def default_c_def has_column_def set_column_def
  downcast_floats_def downcast_column_def is_float_column_def example_lib_def
  astype_uint_def sort_values_def store_append_def reindex_def restrict_row_def
  batch_def example_columns_def example_record_def written_iev_def

text \<open>
  C7. The table that a run leaves depends on how the records were grouped into the calls
  of \<^verbatim>\<open>append_event\<close> (see the example below): every flush sorts the records buffered
  since the flush before, and a flush comes after the call at which the byte estimate of
  the buffer reaches the threshold. What holds is this: with no monitor writer attached,
  for two groupings of the same records, each into at least one call, and a byte estimate
  that stays below the threshold in both runs, so that the only flush is the one of
  \<^verbatim>\<open>finish\<close>, the two runs end alike: the same error, or the same writer and the same
  file.
\<close>

theorem one_flush_at_close_is_chunking_independent:
  assumes "dw_monitor w = None"
      and "gs \<noteq> []" and "hs \<noteq> []" and "concat gs = concat hs"
      and "dw_df_list_n_bytes w + sum_list (map (memory_usage lib) (map (batch cs) gs)) < flush_threshold"
      and "dw_df_list_n_bytes w + sum_list (map (memory_usage lib) (map (batch cs) hs)) < flush_threshold"
  shows "write_run lib fs w (map (batch cs) gs) = write_run lib fs w (map (batch cs) hs)"
proof -
  from assms(2,3) have "dw_df_list w @ map (batch cs) gs \<noteq> []" "dw_df_list w @ map (batch cs) hs \<noteq> []"
    by simp_all
  from finish_buffer [OF this pd_concat_batches [OF assms(2,3,4)]]
       append_events_buffered [OF assms(1,5)] append_events_buffered [OF assms(1,6)]
  show ?thesis by (simp add: write_run_def)
qed

theorem one_flush_at_close_is_chunking_independent_witness:
  "write_run example_lib [''run.h5'' \<mapsto> HDFFile Map.empty] fresh_writer
       (map (batch example_columns) [[example_record 1], [example_record 0]])
     = write_run example_lib [''run.h5'' \<mapsto> HDFFile Map.empty] fresh_writer
         (map (batch example_columns) [[example_record 1, example_record 0]])
   \<and> written_iev (write_run example_lib [''run.h5'' \<mapsto> HDFFile Map.empty] fresh_writer
                  (map (batch example_columns) [[example_record 1], [example_record 0]]))
     = Inr (Some [CInt 0, CInt 1])"
proof -
  have "write_run example_lib [''run.h5'' \<mapsto> HDFFile Map.empty] fresh_writer
       (map (batch example_columns) [[example_record 1], [example_record 0]])
     = write_run example_lib [''run.h5'' \<mapsto> HDFFile Map.empty] fresh_writer
         (map (batch example_columns) [[example_record 1, example_record 0]])"
    using one_flush_at_close_is_chunking_independent
            [of fresh_writer "[[example_record 1], [example_record 0]]"
                "[[example_record 1, example_record 0]]" example_lib example_columns
                "[''run.h5'' \<mapsto> HDFFile Map.empty]"]
    by (simp add: fresh_writer_def example_lib_def batch_def flush_threshold_def reindex_def
                  example_columns_def)
  moreover have "written_iev (write_run example_lib [''run.h5'' \<mapsto> HDFFile Map.empty] fresh_writer
                  (map (batch example_columns) [[example_record 1, example_record 0]]))
     = Inr (Some [CInt 0, CInt 1])"
    by (simp add: flush_eval)
  ultimately show ?thesis by simp
qed

text \<open>
  With half a gigabyte for every record, the record of event 1 and then the record of
  event 0 given in two calls are flushed one by one, and the table has them in that
  order; given in one call they are flushed together, and the table has event 0 first.
\<close>

theorem flush_order_depends_on_chunking:
  "written_iev (write_run heavy_lib [''run.h5'' \<mapsto> HDFFile Map.empty] fresh_writer
                  (map (batch example_columns) [[example_record 1], [example_record 0]]))
     = Inr (Some [CInt 1, CInt 0])
   \<and> written_iev (write_run heavy_lib [''run.h5'' \<mapsto> HDFFile Map.empty] fresh_writer
                  (map (batch example_columns) [[example_record 1, example_record 0]]))
     = Inr (Some [CInt 0, CInt 1])"
  by (simp add: flush_eval heavy_lib_def)

end
